theory Spec2Isabelle
  imports Complex_Main "HOL-Library.Word"
begin

unbundle bit_operations_syntax

section \<open>JpegToRelief: thickness field and binary STL serializer\<close>

text \<open>
  The repository holds two variants of the same pipeline: \<^verbatim>\<open>src/docs/app.js\<close> (suffix
  \<open>_docs\<close> below) and \<^verbatim>\<open>src/unnamed/part_000\<close> (suffix \<open>_p0\<close>). Both define
  \<^verbatim>\<open>computeThicknessMap\<close>, \<^verbatim>\<open>srgbToLinear\<close> and \<^verbatim>\<open>buildBinarySTL\<close>.

  Dimensions, offsets and counts are \<open>int\<close> and \<open>nat\<close>. A JavaScript number is a \<open>real\<close>
  that an IEEE double holds, and every arithmetic operation from the row count and the clip
  step on rounds its exact result to the nearest double (\<open>dbl\<close>); the store into the
  \<^verbatim>\<open>Float32Array\<close> that holds the field rounds to the nearest single (\<open>fround\<close>). The
  decoding of the colour bytes (\<open>srgbToLinear\<close> and the weighted sum) is kept in exact
  arithmetic: what is proved of it is its formula and its range.
\<close>

subsection \<open>IEEE rounding\<close>

text \<open>
  The nearest integer, a tie going to the even one.
\<close>

definition roundEven :: "real \<Rightarrow> int" where
  "roundEven y =
     (let f = \<lfloor>y\<rfloor>; r = y - of_int f
      in if r < 1 / 2 then f else if 1 / 2 < r then f + 1 else if even f then f else f + 1)"

text \<open>
  Rounding to the nearest binary floating-point number with a significand of \<open>p\<close> bits, ties
  to even: with \<open>e = \<lfloor>log 2 \<bar>x\<bar>\<rfloor>\<close> the neighbours of \<open>x\<close> are the multiples of
  \<open>2 ^ (e - p + 1)\<close>. The exponent range is not bounded, so there is neither overflow to
  \<^verbatim>\<open>Infinity\<close> nor gradual underflow; a theorem that depends on a finite reciprocal
  assumes the bound that keeps the double finite.
\<close>

definition rnd :: "nat \<Rightarrow> real \<Rightarrow> real" where
  "rnd p x =
     (if x = 0 then 0
      else let u = 2 powr of_int (\<lfloor>log 2 \<bar>x\<bar>\<rfloor> - int p + 1)
           in sgn x * of_int (roundEven (\<bar>x\<bar> / u)) * u)"

text \<open>The result of an operation on doubles, and \<^verbatim>\<open>Math.fround\<close>.\<close>

definition dbl :: "real \<Rightarrow> real" where
  "dbl = rnd 53"

definition fround :: "real \<Rightarrow> real" where
  "fround = rnd 24"

text \<open>
  \<^verbatim>\<open>Math.pow\<close> on a base in \<open>[0, 1]\<close> and a positive exponent, where it is \<open>powr\<close>; it is
  taken as correctly rounded.
\<close>

definition Math_pow :: "real \<Rightarrow> real \<Rightarrow> real" where
  "Math_pow x y = dbl (x powr y)"

subsection \<open>Parameters and result of the thickness field builder\<close>

text \<open>
  The object built by \<^verbatim>\<open>getParams\<close>. \<open>mapInvert\<close> is optional, since
  \<^verbatim>\<open>src/docs/app.js\<close> reads it as \<^verbatim>\<open>p.mapInvert ?? true\<close>; \<open>None\<close> is \<^verbatim>\<open>undefined\<close>.
\<close>

record params =
  widthMm :: real
  widthPx :: nat
  baseMm :: real
  reliefMm :: real
  blackCut :: real
  whiteCut :: real
  toneGamma :: real
  mapInvert :: "bool option"
  flipX :: bool
  flipY :: bool

text \<open>The returned object \<^verbatim>\<open>{ thickness, pxMm, W, H }\<close>.\<close>

record thicknessMap =
  tm_thickness :: "real list"
  tm_pxMm :: real
  tm_W :: nat
  tm_H :: nat

text \<open>\<^verbatim>\<open>Math.round\<close>: the nearest integer, a tie going up.\<close>

definition Math_round :: "real \<Rightarrow> int" where
  "Math_round x = \<lfloor>x + 1 / 2\<rfloor>"

text \<open>
  \<^verbatim>\<open>getParams\<close> of \<^verbatim>\<open>src/docs/app.js\<close>, field \<^verbatim>\<open>widthPx\<close>:
  \<^verbatim>\<open>Math.max(10, Math.floor(numberVal("widthPx", 600)))\<close>, where the argument is the finite
  number that \<^verbatim>\<open>numberVal\<close> returns.
\<close>

definition getParams_widthPx_docs :: "real \<Rightarrow> nat" where
  "getParams_widthPx_docs v = nat (max 10 \<lfloor>v\<rfloor>)"

text \<open>
  \<^verbatim>\<open>getParams\<close> of \<^verbatim>\<open>src/unnamed/part_000\<close>, field \<^verbatim>\<open>widthPx\<close>:
  \<^verbatim>\<open>Math.max(10, parseInt(...) || 400)\<close>. The argument is the result of \<^verbatim>\<open>parseInt\<close>,
  \<open>None\<close> for \<^verbatim>\<open>NaN\<close>; \<^verbatim>\<open>NaN\<close> and \<open>0\<close> are falsy and give the default.
\<close>

definition getParams_widthPx_p0 :: "int option \<Rightarrow> nat" where
  "getParams_widthPx_p0 r =
     nat (max 10 (case r of None \<Rightarrow> 400 | Some n \<Rightarrow> if n = 0 then 400 else n))"

subsection \<open>Per-pixel tone mapping\<close>

definition srgbToLinear :: "real \<Rightarrow> real" where
  "srgbToLinear u = (if u \<le> 0.04045 then u / 12.92 else ((u + 0.055) / 1.055) powr 2.4)"

text \<open>
  The luminance of the pixel whose first byte is \<open>data ! i\<close>: bytes \<open>i\<close>, \<open>i + 1\<close>,
  \<open>i + 2\<close> are red, green and blue; byte \<open>i + 3\<close> (alpha) is never read.
\<close>

definition luminance :: "8 word list \<Rightarrow> nat \<Rightarrow> real" where
  "luminance data i =
     (let sr = real (unat (data ! i)) / 255;
          sg = real (unat (data ! (i + 1))) / 255;
          sb = real (unat (data ! (i + 2))) / 255;
          lr = srgbToLinear sr;
          lg = srgbToLinear sg;
          lb = srgbToLinear sb
      in 0.2126 * lr + 0.7152 * lg + 0.0722 * lb)"

text \<open>
  \<^verbatim>\<open>Math.max(1e-9, whiteCut - blackCut)\<close>, the divisor of \<^verbatim>\<open>invRange\<close>; the literal
  \<^verbatim>\<open>1e-9\<close> is the double nearest to \<open>1 / 10 ^ 9\<close>.
\<close>

definition cutRange :: "params \<Rightarrow> real" where
  "cutRange p = max (dbl (1 / 10 ^ 9)) (dbl (whiteCut p - blackCut p))"

text \<open>\<^verbatim>\<open>const invRange = 1 / Math.max(1e-9, whiteCut - blackCut)\<close>.\<close>

definition invRange :: "params \<Rightarrow> real" where
  "invRange p = dbl (1 / cutRange p)"

text \<open>\<^verbatim>\<open>Y = Math.max(0, Math.min(1, (Y - blackCut) * invRange))\<close>.\<close>

definition clipNormalize :: "params \<Rightarrow> real \<Rightarrow> real" where
  "clipNormalize p Y = max 0 (min 1 (dbl (dbl (Y - blackCut p) * invRange p)))"

text \<open>
  The tone curve. \<^verbatim>\<open>src/docs/app.js\<close> skips it when \<^verbatim>\<open>Math.abs(toneGamma - 1.0) > 1e-9\<close>
  is false, \<^verbatim>\<open>src/unnamed/part_000\<close> when \<^verbatim>\<open>p.toneGamma !== 1\<close> is false.
\<close>

definition toneCurve_docs :: "params \<Rightarrow> real \<Rightarrow> real" where
  "toneCurve_docs p Y =
     (if \<bar>dbl (toneGamma p - 1)\<bar> > dbl (1 / 10 ^ 9)
      then Math_pow Y (dbl (1 / toneGamma p)) else Y)"

definition toneCurve_p0 :: "params \<Rightarrow> real \<Rightarrow> real" where
  "toneCurve_p0 p Y = (if toneGamma p \<noteq> 1 then Math_pow Y (dbl (1 / toneGamma p)) else Y)"

text \<open>
  From the luminance to the thickness \<open>t = p.baseMm + p.reliefMm * v\<close>: clip, tone curve,
  direction, scale. The
  direction is \<^verbatim>\<open>(p.mapInvert ?? true) ? (1.0 - Y) : Y\<close> in \<^verbatim>\<open>src/docs/app.js\<close> and
  \<^verbatim>\<open>p.mapInvert ? (1.0 - Y) : Y\<close> in \<^verbatim>\<open>src/unnamed/part_000\<close>, where \<^verbatim>\<open>undefined\<close>
  is falsy.
\<close>

definition toThickness_docs :: "params \<Rightarrow> real \<Rightarrow> real" where
  "toThickness_docs p Y0 =
     (let Y = clipNormalize p Y0;
          Y = toneCurve_docs p Y;
          v = (if (case mapInvert p of None \<Rightarrow> True | Some b \<Rightarrow> b) then dbl (1 - Y) else Y)
      in dbl (baseMm p + dbl (reliefMm p * v)))"

definition toThickness_p0 :: "params \<Rightarrow> real \<Rightarrow> real" where
  "toThickness_p0 p Y0 =
     (let Y = clipNormalize p Y0;
          Y = toneCurve_p0 p Y;
          v = (if (case mapInvert p of None \<Rightarrow> False | Some b \<Rightarrow> b) then dbl (1 - Y) else Y)
      in dbl (baseMm p + dbl (reliefMm p * v)))"

text \<open>The body of the inner loop up to the value \<open>t\<close>, for the pixel at byte offset \<open>i\<close>.\<close>

definition pixelThickness_docs :: "params \<Rightarrow> 8 word list \<Rightarrow> nat \<Rightarrow> real" where
  "pixelThickness_docs p data i = toThickness_docs p (luminance data i)"

definition pixelThickness_p0 :: "params \<Rightarrow> 8 word list \<Rightarrow> nat \<Rightarrow> real" where
  "pixelThickness_p0 p data i = toThickness_p0 p (luminance data i)"

subsection \<open>The pixel loops\<close>

text \<open>
  The write position of pixel \<open>(x, y)\<close>:
  \<^verbatim>\<open>let ox = x, oy = y; if (p.flipX) ox = W - 1 - x; if (p.flipY) oy = H - 1 - y;\<close>
  and then \<^verbatim>\<open>thickness[oy * W + ox] = t\<close>. In the loops \<open>x < W\<close> and \<open>y < H\<close>, so the
  subtractions do not go below zero.
\<close>

definition writeIndex :: "params \<Rightarrow> nat \<Rightarrow> nat \<Rightarrow> nat \<Rightarrow> nat \<Rightarrow> nat" where
  "writeIndex p W H x y =
     (let ox = (if flipX p then W - 1 - x else x);
          oy = (if flipY p then H - 1 - y else y)
      in oy * W + ox)"

text \<open>
  The two nested \<^verbatim>\<open>for\<close> loops over \<^verbatim>\<open>new Float32Array(W * H)\<close>, \<open>W * H\<close> zeros. The
  first argument is the per-pixel thickness of the variant; the store
  \<^verbatim>\<open>thickness[oy * W + ox] = t\<close> rounds the double \<open>t\<close> to single precision.
\<close>

definition pixelLoops ::
  "(params \<Rightarrow> 8 word list \<Rightarrow> nat \<Rightarrow> real) \<Rightarrow> params \<Rightarrow> 8 word list \<Rightarrow> nat \<Rightarrow> nat \<Rightarrow> real list"
where
  "pixelLoops pixel p data W H =
     fold (\<lambda>y. fold (\<lambda>x thickness.
                  thickness[writeIndex p W H x y := fround (pixel p data ((y * W + x) * 4))])
                [0..<W])
          [0..<H] (replicate (W * H) 0)"

text \<open>
  \<^verbatim>\<open>Math.round(img.height * (W / img.width))\<close>: the quotient and the product are doubles,
  and \<^verbatim>\<open>Math.round\<close> is applied to the rounded product.
\<close>

definition scaledHeight :: "nat \<Rightarrow> nat \<Rightarrow> nat \<Rightarrow> int" where
  "scaledHeight imgW imgH W = Math_round (dbl (real imgH * dbl (real W / real imgW)))"

text \<open>
  \<^verbatim>\<open>computeThicknessMap(img, p)\<close>. The canvas is the browser's: \<open>draw W H\<close> stands for the
  RGBA bytes that \<^verbatim>\<open>drawImage(img, 0, 0, W, H)\<close> followed by
  \<^verbatim>\<open>getImageData(0, 0, W, H)\<close> yields, \<open>4 * W * H\<close> of them; \<open>imgW\<close> and \<open>imgH\<close> are
  \<^verbatim>\<open>img.width\<close> and \<^verbatim>\<open>img.height\<close>. \<^verbatim>\<open>src/unnamed/part_000\<close> has no \<^verbatim>\<open>Math.max(1, ...)\<close>
  around the row count; when it is \<open>0\<close> the browser's \<^verbatim>\<open>getImageData\<close> raises an
  exception and nothing is returned, whereas the function below, which has no canvas, goes
  on to the empty field.
\<close>

definition computeThicknessMap_docs ::
  "(nat \<Rightarrow> nat \<Rightarrow> 8 word list) \<Rightarrow> nat \<Rightarrow> nat \<Rightarrow> params \<Rightarrow> thicknessMap"
where
  "computeThicknessMap_docs draw imgW imgH p =
     (let W = widthPx p;
          H = nat (max 1 (scaledHeight imgW imgH W));
          data = draw W H
      in \<lparr>tm_thickness = pixelLoops pixelThickness_docs p data W H,
          tm_pxMm = dbl (widthMm p / real W), tm_W = W, tm_H = H\<rparr>)"

definition computeThicknessMap_p0 ::
  "(nat \<Rightarrow> nat \<Rightarrow> 8 word list) \<Rightarrow> nat \<Rightarrow> nat \<Rightarrow> params \<Rightarrow> thicknessMap"
where
  "computeThicknessMap_p0 draw imgW imgH p =
     (let W = widthPx p;
          H = nat (scaledHeight imgW imgH W);
          data = draw W H
      in \<lparr>tm_thickness = pixelLoops pixelThickness_p0 p data W H,
          tm_pxMm = dbl (widthMm p / real W), tm_W = W, tm_H = H\<rparr>)"

text \<open>
  How the consumers read the field, row-major: \<^verbatim>\<open>thickness[y * W + x]\<close>
  (\<^verbatim>\<open>renderPreview\<close>, \<^verbatim>\<open>vzTop\<close>, \<^verbatim>\<open>vz\<close>).
\<close>

definition fieldAt :: "thicknessMap \<Rightarrow> nat \<Rightarrow> nat \<Rightarrow> real" where
  "fieldAt m x y = tm_thickness m ! (y * tm_W m + x)"

subsection \<open>Buffers and \<^verbatim>\<open>DataView\<close> writes\<close>

text \<open>
  The only exception the serializer can meet: the \<^verbatim>\<open>RangeError\<close> of
  \<^verbatim>\<open>new ArrayBuffer\<close> on a negative length or on a length that the engine cannot
  allocate, of \<^verbatim>\<open>new Uint8Array(buf, 0, 80)\<close> on a shorter buffer, and of a
  \<^verbatim>\<open>DataView\<close> write that does not fit the buffer.
\<close>

datatype error = RangeError

text \<open>
  A value handed to \<^verbatim>\<open>setFloat32\<close>: a number, or \<^verbatim>\<open>NaN\<close>, which is what
  \<^verbatim>\<open>undefined\<close> (a read outside the thickness array) is converted to.
\<close>

datatype num = Num real | NaN

text \<open>
  A byte of the buffer: a plain byte, or byte \<open>k\<close> (little-endian order) of the IEEE
  single-precision encoding of a value. The encoding itself is not modelled.
\<close>

datatype byte = Raw "8 word" | F32 num nat

definition bindE :: "error + 'a \<Rightarrow> ('a \<Rightarrow> error + 'b) \<Rightarrow> error + 'b" where
  "bindE m f = (case m of Inl e \<Rightarrow> Inl e | Inr v \<Rightarrow> f v)"

text \<open>Statements in sequence: the first exception ends the run.\<close>

primrec seqE :: "('s \<Rightarrow> error + 's) list \<Rightarrow> 's \<Rightarrow> error + 's" where
  "seqE [] s = Inr s"
| "seqE (f # fs) s = bindE (f s) (seqE fs)"

text \<open>\<^verbatim>\<open>for (let i = 0; i < n; i++) body\<close>: the values of \<open>i\<close>, and the loop.\<close>

definition loopRange :: "int \<Rightarrow> int list" where
  "loopRange n = [0..n - 1]"

definition forE :: "int \<Rightarrow> (int \<Rightarrow> 's \<Rightarrow> error + 's) \<Rightarrow> 's \<Rightarrow> error + 's" where
  "forE n body = seqE (map body (loopRange n))"

text \<open>
  \<^verbatim>\<open>new ArrayBuffer(n)\<close>: \<open>n\<close> zero bytes. \<open>maxLen\<close> is the largest length that the engine
  running the code allocates (at most \<open>2 ^ 53 - 1\<close> by the language, and no more than the
  memory at hand); a longer request raises a \<^verbatim>\<open>RangeError\<close>, as a negative one does.
\<close>

definition ArrayBuffer :: "nat \<Rightarrow> int \<Rightarrow> error + byte list" where
  "ArrayBuffer maxLen n =
     (if n < 0 \<or> int maxLen < n then Inl RangeError else Inr (replicate (nat n) (Raw 0)))"

text \<open>A bounds-checked write of some bytes at a byte offset.\<close>

definition setBytes :: "byte list \<Rightarrow> nat \<Rightarrow> byte list \<Rightarrow> error + byte list" where
  "setBytes buf off bs =
     (if off + length bs \<le> length buf
      then Inr (take off buf @ bs @ drop (off + length bs) buf)
      else Inl RangeError)"

definition uint32_le :: "32 word \<Rightarrow> byte list" where
  "uint32_le w = [Raw (ucast w), Raw (ucast (drop_bit 8 w)), Raw (ucast (drop_bit 16 w)),
                  Raw (ucast (drop_bit 24 w))]"

definition uint16_le :: "16 word \<Rightarrow> byte list" where
  "uint16_le w = [Raw (ucast w), Raw (ucast (drop_bit 8 w))]"

definition float32_le :: "num \<Rightarrow> byte list" where
  "float32_le v = [F32 v 0, F32 v 1, F32 v 2, F32 v 3]"

text \<open>
  \<^verbatim>\<open>view.setFloat32(off, v, true)\<close>, \<^verbatim>\<open>view.setUint32(off, n, true)\<close> and
  \<^verbatim>\<open>view.setUint16(off, n, true)\<close>. The integer is reduced modulo \<open>2 ^ 32\<close> or \<open>2 ^ 16\<close>.
\<close>

definition setFloat32 :: "nat \<Rightarrow> num \<Rightarrow> byte list \<Rightarrow> error + byte list" where
  "setFloat32 off v buf = setBytes buf off (float32_le v)"

definition setUint32 :: "nat \<Rightarrow> int \<Rightarrow> byte list \<Rightarrow> error + byte list" where
  "setUint32 off n buf = setBytes buf off (uint32_le (word_of_int n))"

definition setUint16 :: "nat \<Rightarrow> int \<Rightarrow> byte list \<Rightarrow> error + byte list" where
  "setUint16 off n buf = setBytes buf off (uint16_le (word_of_int n))"

text \<open>
  Reading the little-endian unsigned 32-bit integer at a byte offset, as a consumer of the
  stream does; \<open>None\<close> when the four bytes are not plain bytes inside the buffer.
\<close>

definition getUint32 :: "byte list \<Rightarrow> nat \<Rightarrow> 32 word option" where
  "getUint32 buf off =
     (if off + 4 \<le> length buf
      then (case (buf ! off, buf ! (off + 1), buf ! (off + 2), buf ! (off + 3)) of
              (Raw b0, Raw b1, Raw b2, Raw b3) \<Rightarrow>
                Some (ucast b0 OR push_bit 8 (ucast b1) OR push_bit 16 (ucast b2)
                      OR push_bit 24 (ucast b3))
            | _ \<Rightarrow> None)
      else None)"

text \<open>\<^verbatim>\<open>thickness[y * W + x]\<close>, as \<^verbatim>\<open>vzTop\<close> and \<^verbatim>\<open>vz\<close> read it.\<close>

definition vzTop :: "real list \<Rightarrow> int \<Rightarrow> int \<Rightarrow> int \<Rightarrow> num" where
  "vzTop thickness W x y =
     (let i = y * W + x
      in if 0 \<le> i \<and> i < int (length thickness) then Num (thickness ! nat i) else NaN)"

type_synonym vertex = "num \<times> num \<times> num"

subsection \<open>\<^verbatim>\<open>buildBinarySTL\<close> of \<^verbatim>\<open>src/docs/app.js\<close>\<close>

text \<open>
  The buffer behind \<^verbatim>\<open>view\<close> and the write cursor \<^verbatim>\<open>off\<close>; \<^verbatim>\<open>vx\<close> is
  \<^verbatim>\<open>(W - 1 - x) * pxMm\<close> and \<^verbatim>\<open>vy\<close> is \<^verbatim>\<open>y * pxMm\<close>.
\<close>

record writer =
  w_buf :: "byte list"
  w_off :: nat

definition vx_docs :: "real \<Rightarrow> int \<Rightarrow> int \<Rightarrow> num" where
  "vx_docs pxMm W x = Num (dbl (real_of_int (W - 1 - x) * pxMm))"

definition vy_docs :: "real \<Rightarrow> int \<Rightarrow> num" where
  "vy_docs pxMm y = Num (dbl (real_of_int y * pxMm))"

text \<open>\<^verbatim>\<open>writeTri\<close>: the normal, three vertices, the attribute, and \<^verbatim>\<open>off += 50\<close>.\<close>

definition writeTri_docs :: "vertex \<Rightarrow> vertex \<Rightarrow> vertex \<Rightarrow> writer \<Rightarrow> error + writer" where
  "writeTri_docs a b c s =
     (case (a, b, c) of ((ax, ay, az), (bx, by, bz), (cx, cy, cz)) \<Rightarrow>
        bindE (seqE [setFloat32 (w_off s + 0) (Num 0),
                     setFloat32 (w_off s + 4) (Num 0),
                     setFloat32 (w_off s + 8) (Num 0),
                     setFloat32 (w_off s + 12) ax,
                     setFloat32 (w_off s + 16) ay,
                     setFloat32 (w_off s + 20) az,
                     setFloat32 (w_off s + 24) bx,
                     setFloat32 (w_off s + 28) by,
                     setFloat32 (w_off s + 32) bz,
                     setFloat32 (w_off s + 36) cx,
                     setFloat32 (w_off s + 40) cy,
                     setFloat32 (w_off s + 44) cz,
                     setUint16 (w_off s + 48) 0] (w_buf s))
          (\<lambda>buf. Inr (s\<lparr>w_buf := buf, w_off := w_off s + 50\<rparr>)))"

definition topSurface_docs :: "real list \<Rightarrow> real \<Rightarrow> int \<Rightarrow> int \<Rightarrow> writer \<Rightarrow> error + writer" where
  "topSurface_docs thickness pxMm W H =
     forE (H - 1) (\<lambda>y. forE (W - 1) (\<lambda>x.
       let a = (vx_docs pxMm W x, vy_docs pxMm y, vzTop thickness W x y);
           b = (vx_docs pxMm W (x + 1), vy_docs pxMm y, vzTop thickness W (x + 1) y);
           c = (vx_docs pxMm W x, vy_docs pxMm (y + 1), vzTop thickness W x (y + 1));
           d = (vx_docs pxMm W (x + 1), vy_docs pxMm (y + 1), vzTop thickness W (x + 1) (y + 1))
       in seqE [writeTri_docs a c b, writeTri_docs b c d]))"

definition bottomSurface_docs :: "real \<Rightarrow> int \<Rightarrow> int \<Rightarrow> writer \<Rightarrow> error + writer" where
  "bottomSurface_docs pxMm W H =
     forE (H - 1) (\<lambda>y. forE (W - 1) (\<lambda>x.
       let a = (vx_docs pxMm W x, vy_docs pxMm y, Num 0);
           b = (vx_docs pxMm W (x + 1), vy_docs pxMm y, Num 0);
           c = (vx_docs pxMm W x, vy_docs pxMm (y + 1), Num 0);
           d = (vx_docs pxMm W (x + 1), vy_docs pxMm (y + 1), Num 0)
       in seqE [writeTri_docs a b c, writeTri_docs b d c]))"

text \<open>The walls: the edges \<open>y = 0\<close> and \<open>y = H - 1\<close>, then \<open>x = 0\<close> and \<open>x = W - 1\<close>.\<close>

definition wallTop_docs :: "real list \<Rightarrow> real \<Rightarrow> int \<Rightarrow> int \<Rightarrow> writer \<Rightarrow> error + writer" where
  "wallTop_docs thickness pxMm W H =
     forE (W - 1) (\<lambda>x.
       let aT = (vx_docs pxMm W x, vy_docs pxMm 0, vzTop thickness W x 0);
           bT = (vx_docs pxMm W (x + 1), vy_docs pxMm 0, vzTop thickness W (x + 1) 0);
           aB = (vx_docs pxMm W x, vy_docs pxMm 0, Num 0);
           bB = (vx_docs pxMm W (x + 1), vy_docs pxMm 0, Num 0)
       in seqE [writeTri_docs aT bT aB, writeTri_docs bT bB aB])"

definition wallBottom_docs :: "real list \<Rightarrow> real \<Rightarrow> int \<Rightarrow> int \<Rightarrow> writer \<Rightarrow> error + writer" where
  "wallBottom_docs thickness pxMm W H =
     forE (W - 1) (\<lambda>x.
       let aT = (vx_docs pxMm W x, vy_docs pxMm (H - 1), vzTop thickness W x (H - 1));
           bT = (vx_docs pxMm W (x + 1), vy_docs pxMm (H - 1), vzTop thickness W (x + 1) (H - 1));
           aB = (vx_docs pxMm W x, vy_docs pxMm (H - 1), Num 0);
           bB = (vx_docs pxMm W (x + 1), vy_docs pxMm (H - 1), Num 0)
       in seqE [writeTri_docs bT aT aB, writeTri_docs aB bB bT])"

definition wallLeft_docs :: "real list \<Rightarrow> real \<Rightarrow> int \<Rightarrow> int \<Rightarrow> writer \<Rightarrow> error + writer" where
  "wallLeft_docs thickness pxMm W H =
     forE (H - 1) (\<lambda>y.
       let aT = (vx_docs pxMm W 0, vy_docs pxMm y, vzTop thickness W 0 y);
           bT = (vx_docs pxMm W 0, vy_docs pxMm (y + 1), vzTop thickness W 0 (y + 1));
           aB = (vx_docs pxMm W 0, vy_docs pxMm y, Num 0);
           bB = (vx_docs pxMm W 0, vy_docs pxMm (y + 1), Num 0)
       in seqE [writeTri_docs bT aT aB, writeTri_docs aB bB bT])"

definition wallRight_docs :: "real list \<Rightarrow> real \<Rightarrow> int \<Rightarrow> int \<Rightarrow> writer \<Rightarrow> error + writer" where
  "wallRight_docs thickness pxMm W H =
     forE (H - 1) (\<lambda>y.
       let aT = (vx_docs pxMm W (W - 1), vy_docs pxMm y, vzTop thickness W (W - 1) y);
           bT = (vx_docs pxMm W (W - 1), vy_docs pxMm (y + 1), vzTop thickness W (W - 1) (y + 1));
           aB = (vx_docs pxMm W (W - 1), vy_docs pxMm y, Num 0);
           bB = (vx_docs pxMm W (W - 1), vy_docs pxMm (y + 1), Num 0)
       in seqE [writeTri_docs aT bT aB, writeTri_docs bT bB aB])"

text \<open>\<^verbatim>\<open>triCount = topTris + bottomTris + sideTris\<close>.\<close>

definition triCount_docs :: "int \<Rightarrow> int \<Rightarrow> int" where
  "triCount_docs W H =
     (let topTris = (W - 1) * (H - 1) * 2;
          bottomTris = topTris;
          sideTris = ((W - 1) * 2 + (H - 1) * 2) * 2
      in topTris + bottomTris + sideTris)"

text \<open>
  The function up to its \<^verbatim>\<open>return\<close>, with the final cursor kept: the buffer of
  \<open>84 + triCount * 50\<close> bytes, the header (\<^verbatim>\<open>new Uint8Array(buf, 0, 80).set(header)\<close>,
  eighty zeros), the count at offset 80, and the six groups of triangles from offset 84.
\<close>

definition stlWriter_docs :: "nat \<Rightarrow> real list \<Rightarrow> real \<Rightarrow> int \<Rightarrow> int \<Rightarrow> error + writer" where
  "stlWriter_docs maxLen thickness pxMm W H =
     (let triCount = triCount_docs W H in
      bindE (ArrayBuffer maxLen (84 + triCount * 50)) (\<lambda>buf.
      bindE (setBytes buf 0 (replicate 80 (Raw 0))) (\<lambda>buf.
      bindE (setUint32 80 triCount buf) (\<lambda>buf.
        seqE [topSurface_docs thickness pxMm W H,
              bottomSurface_docs pxMm W H,
              wallTop_docs thickness pxMm W H,
              wallBottom_docs thickness pxMm W H,
              wallLeft_docs thickness pxMm W H,
              wallRight_docs thickness pxMm W H]
          \<lparr>w_buf = buf, w_off = 84\<rparr>))))"

text \<open>
  \<^verbatim>\<open>buildBinarySTL(thickness, pxMm, W, H)\<close>, which returns the whole buffer; the first
  argument is the engine's allocation limit.
\<close>

definition buildBinarySTL_docs ::
  "nat \<Rightarrow> real list \<Rightarrow> real \<Rightarrow> int \<Rightarrow> int \<Rightarrow> error + byte list"
where
  "buildBinarySTL_docs maxLen thickness pxMm W H =
     bindE (stlWriter_docs maxLen thickness pxMm W H) (\<lambda>s. Inr (w_buf s))"

subsection \<open>\<^verbatim>\<open>buildBinarySTL\<close> of \<^verbatim>\<open>src/unnamed/part_000\<close>\<close>

text \<open>The buffer, the cursor \<^verbatim>\<open>off\<close> and the counter \<^verbatim>\<open>count\<close>.\<close>

record writer_p0 = writer +
  w_count :: nat

definition vx_p0 :: "real \<Rightarrow> int \<Rightarrow> num" where
  "vx_p0 pxMm x = Num (dbl (real_of_int x * pxMm))"

definition vy_p0 :: "real \<Rightarrow> int \<Rightarrow> int \<Rightarrow> num" where
  "vy_p0 pxMm H y = Num (dbl (real_of_int (H - 1 - y) * pxMm))"

text \<open>
  \<^verbatim>\<open>writeTri\<close>: \<^verbatim>\<open>off += 12\<close> skips the normal, nine floats follow, and
  \<^verbatim>\<open>off += 38; count++\<close> skips the attribute as well.
\<close>

definition writeTri_p0 :: "vertex \<Rightarrow> vertex \<Rightarrow> vertex \<Rightarrow> writer_p0 \<Rightarrow> error + writer_p0" where
  "writeTri_p0 a b c s =
     (case (a, b, c) of ((ax, ay, az), (bx, by, bz), (cx, cy, cz)) \<Rightarrow>
        let off = w_off s + 12 in
        bindE (seqE [setFloat32 off ax,
                     setFloat32 (off + 4) ay,
                     setFloat32 (off + 8) az,
                     setFloat32 (off + 12) bx,
                     setFloat32 (off + 16) by,
                     setFloat32 (off + 20) bz,
                     setFloat32 (off + 24) cx,
                     setFloat32 (off + 28) cy,
                     setFloat32 (off + 32) cz] (w_buf s))
          (\<lambda>buf. Inr (s\<lparr>w_buf := buf, w_off := off + 38, w_count := w_count s + 1\<rparr>)))"

text \<open>The first pair of loops: top and bottom of every cell.\<close>

definition cells_p0 :: "real list \<Rightarrow> real \<Rightarrow> int \<Rightarrow> int \<Rightarrow> writer_p0 \<Rightarrow> error + writer_p0" where
  "cells_p0 thickness pxMm W H =
     forE (H - 1) (\<lambda>y. forE (W - 1) (\<lambda>x.
       seqE [writeTri_p0 (vx_p0 pxMm x, vy_p0 pxMm H y, vzTop thickness W x y)
                         (vx_p0 pxMm x, vy_p0 pxMm H (y + 1), vzTop thickness W x (y + 1))
                         (vx_p0 pxMm (x + 1), vy_p0 pxMm H y, vzTop thickness W (x + 1) y),
             writeTri_p0 (vx_p0 pxMm (x + 1), vy_p0 pxMm H y, vzTop thickness W (x + 1) y)
                         (vx_p0 pxMm x, vy_p0 pxMm H (y + 1), vzTop thickness W x (y + 1))
                         (vx_p0 pxMm (x + 1), vy_p0 pxMm H (y + 1), vzTop thickness W (x + 1) (y + 1)),
             writeTri_p0 (vx_p0 pxMm x, vy_p0 pxMm H y, Num 0)
                         (vx_p0 pxMm (x + 1), vy_p0 pxMm H y, Num 0)
                         (vx_p0 pxMm x, vy_p0 pxMm H (y + 1), Num 0),
             writeTri_p0 (vx_p0 pxMm (x + 1), vy_p0 pxMm H y, Num 0)
                         (vx_p0 pxMm (x + 1), vy_p0 pxMm H (y + 1), Num 0)
                         (vx_p0 pxMm x, vy_p0 pxMm H (y + 1), Num 0)]))"

text \<open>The sides along \<open>x\<close>: the edges \<open>y = 0\<close> and \<open>y = H - 1\<close>.\<close>

definition sidesX_p0 :: "real list \<Rightarrow> real \<Rightarrow> int \<Rightarrow> int \<Rightarrow> writer_p0 \<Rightarrow> error + writer_p0" where
  "sidesX_p0 thickness pxMm W H =
     forE (W - 1) (\<lambda>x.
       seqE [writeTri_p0 (vx_p0 pxMm x, vy_p0 pxMm H 0, vzTop thickness W x 0)
                         (vx_p0 pxMm (x + 1), vy_p0 pxMm H 0, vzTop thickness W (x + 1) 0)
                         (vx_p0 pxMm x, vy_p0 pxMm H 0, Num 0),
             writeTri_p0 (vx_p0 pxMm (x + 1), vy_p0 pxMm H 0, vzTop thickness W (x + 1) 0)
                         (vx_p0 pxMm (x + 1), vy_p0 pxMm H 0, Num 0)
                         (vx_p0 pxMm x, vy_p0 pxMm H 0, Num 0),
             writeTri_p0 (vx_p0 pxMm x, vy_p0 pxMm H (H - 1), vzTop thickness W x (H - 1))
                         (vx_p0 pxMm x, vy_p0 pxMm H (H - 1), Num 0)
                         (vx_p0 pxMm (x + 1), vy_p0 pxMm H (H - 1), vzTop thickness W (x + 1) (H - 1)),
             writeTri_p0 (vx_p0 pxMm (x + 1), vy_p0 pxMm H (H - 1), vzTop thickness W (x + 1) (H - 1))
                         (vx_p0 pxMm x, vy_p0 pxMm H (H - 1), Num 0)
                         (vx_p0 pxMm (x + 1), vy_p0 pxMm H (H - 1), Num 0)])"

text \<open>The sides along \<open>y\<close>: the edges \<open>x = 0\<close> and \<open>x = W - 1\<close>.\<close>

definition sidesY_p0 :: "real list \<Rightarrow> real \<Rightarrow> int \<Rightarrow> int \<Rightarrow> writer_p0 \<Rightarrow> error + writer_p0" where
  "sidesY_p0 thickness pxMm W H =
     forE (H - 1) (\<lambda>y.
       seqE [writeTri_p0 (vx_p0 pxMm 0, vy_p0 pxMm H y, vzTop thickness W 0 y)
                         (vx_p0 pxMm 0, vy_p0 pxMm H y, Num 0)
                         (vx_p0 pxMm 0, vy_p0 pxMm H (y + 1), vzTop thickness W 0 (y + 1)),
             writeTri_p0 (vx_p0 pxMm 0, vy_p0 pxMm H (y + 1), vzTop thickness W 0 (y + 1))
                         (vx_p0 pxMm 0, vy_p0 pxMm H y, Num 0)
                         (vx_p0 pxMm 0, vy_p0 pxMm H (y + 1), Num 0),
             writeTri_p0 (vx_p0 pxMm (W - 1), vy_p0 pxMm H y, vzTop thickness W (W - 1) y)
                         (vx_p0 pxMm (W - 1), vy_p0 pxMm H (y + 1), vzTop thickness W (W - 1) (y + 1))
                         (vx_p0 pxMm (W - 1), vy_p0 pxMm H y, Num 0),
             writeTri_p0 (vx_p0 pxMm (W - 1), vy_p0 pxMm H (y + 1), vzTop thickness W (W - 1) (y + 1))
                         (vx_p0 pxMm (W - 1), vy_p0 pxMm H (y + 1), Num 0)
                         (vx_p0 pxMm (W - 1), vy_p0 pxMm H y, Num 0)])"

text \<open>
  The function up to its \<^verbatim>\<open>return\<close>: a buffer of \<open>84 + 50 * (W - 1) * (H - 1) * 12\<close>
  bytes, a zero count at offset 80, the triangles from offset 84, and at the end
  \<^verbatim>\<open>view.setUint32(80, count, true)\<close>. The constant \<^verbatim>\<open>triCount\<close> of the source is never
  used.
\<close>

definition stlWriter_p0 :: "nat \<Rightarrow> real list \<Rightarrow> real \<Rightarrow> int \<Rightarrow> int \<Rightarrow> error + writer_p0" where
  "stlWriter_p0 maxLen thickness pxMm W H =
     bindE (ArrayBuffer maxLen (84 + 50 * (W - 1) * (H - 1) * 12)) (\<lambda>buf.
     bindE (setUint32 80 0 buf) (\<lambda>buf.
     bindE (seqE [cells_p0 thickness pxMm W H,
                  sidesX_p0 thickness pxMm W H,
                  sidesY_p0 thickness pxMm W H]
              \<lparr>w_buf = buf, w_off = 84, w_count = 0\<rparr>) (\<lambda>s.
     bindE (setUint32 80 (int (w_count s)) (w_buf s)) (\<lambda>buf.
       Inr (s\<lparr>w_buf := buf\<rparr>)))))"

text \<open>\<^verbatim>\<open>return buf.slice(0, off)\<close>.\<close>

definition buildBinarySTL_p0 ::
  "nat \<Rightarrow> real list \<Rightarrow> real \<Rightarrow> int \<Rightarrow> int \<Rightarrow> error + byte list"
where
  "buildBinarySTL_p0 maxLen thickness pxMm W H =
     bindE (stlWriter_p0 maxLen thickness pxMm W H) (\<lambda>s. Inr (take (w_off s) (w_buf s)))"

text \<open>The number of triangles the specification gives for a \<open>W\<close> by \<open>H\<close> field.\<close>

definition spec_triangles :: "int \<Rightarrow> int \<Rightarrow> int" where
  "spec_triangles W H = 2 * (W - 1) * (H - 1) * 2 + 2 * (2 * (W - 1) + 2 * (H - 1))"

text \<open>What a reader finds at offset 80 of a result, and the length of a result.\<close>

definition countField :: "error + byte list \<Rightarrow> 32 word option" where
  "countField r = (case r of Inl e \<Rightarrow> None | Inr bytes \<Rightarrow> getUint32 bytes 80)"

definition byteLength :: "error + byte list \<Rightarrow> nat option" where
  "byteLength r = (case r of Inl e \<Rightarrow> None | Inr bytes \<Rightarrow> Some (length bytes))"

subsection \<open>The specification's formulas\<close>

text \<open>
  The clip step as the specification words it, for comparison with \<open>clipNormalize\<close>: first
  over the reals, then with the same operations carried out on doubles.
\<close>

definition spec_clip :: "real \<Rightarrow> real \<Rightarrow> real \<Rightarrow> real" where
  "spec_clip Y black white = max 0 (min 1 ((Y - black) / max (1 / 10 ^ 9) (white - black)))"

definition spec_clip_dbl :: "real \<Rightarrow> real \<Rightarrow> real \<Rightarrow> real" where
  "spec_clip_dbl Y black white =
     max 0 (min 1 (dbl (dbl (Y - black) / max (dbl (1 / 10 ^ 9)) (dbl (white - black)))))"



text \<open>The red, green and blue bytes of pixel \<open>k\<close> of an RGBA byte array; alpha is byte \<open>4 * k + 3\<close>.\<close>

definition rgbOf :: "8 word list \<Rightarrow> nat \<Rightarrow> 8 word \<times> 8 word \<times> 8 word" where
  "rgbOf data k = (data ! (4 * k), data ! (4 * k + 1), data ! (4 * k + 2))"

text \<open>Every one of the first \<open>n\<close> pixels of an RGBA byte array has red, green and blue \<open>c\<close>.\<close>

definition uniformPixels :: "8 word list \<Rightarrow> nat \<Rightarrow> 8 word \<Rightarrow> bool" where
  "uniformPixels data n c = list_all (\<lambda>k. rgbOf data k = (c, c, c)) [0..<n]"

subsection \<open>Vocabulary of the proofs\<close>

text \<open>
  A byte that is not part of the encoding of \<^verbatim>\<open>NaN\<close>, and a byte of any kind.
\<close>

definition numberByte :: "byte \<Rightarrow> bool" where
  "numberByte b = (case b of Raw w \<Rightarrow> True | F32 v k \<Rightarrow> v \<noteq> NaN)"

definition anyByte :: "byte \<Rightarrow> bool" where
  "anyByte b = True"

text \<open>A value, and a vertex, whose four-byte encodings are of kind \<open>Q\<close>.\<close>

definition numOK :: "(byte \<Rightarrow> bool) \<Rightarrow> num \<Rightarrow> bool" where
  "numOK Q v = list_all Q (float32_le v)"

definition vertexOK :: "(byte \<Rightarrow> bool) \<Rightarrow> vertex \<Rightarrow> bool" where
  "vertexOK Q a = (case a of (x, y, z) \<Rightarrow> numOK Q x \<and> numOK Q y \<and> numOK Q z)"

text \<open>
  A statement that writes inside the byte range \<open>[lo, hi)\<close>: on a buffer of at least \<open>hi\<close>
  bytes, all of kind \<open>Q\<close>, it succeeds, keeps the length, leaves the first \<open>lo\<close> bytes alone
  and leaves a buffer whose bytes are all of kind \<open>Q\<close>.
\<close>

definition keeps :: "(byte \<Rightarrow> bool) \<Rightarrow> nat \<Rightarrow> nat \<Rightarrow> (byte list \<Rightarrow> error + byte list) \<Rightarrow> bool" where
  "keeps Q lo hi f =
     (\<forall>buf. hi \<le> length buf \<longrightarrow> list_all Q buf \<longrightarrow>
        (\<exists>buf'. f buf = Inr buf' \<and> length buf' = length buf \<and> take lo buf' = take lo buf
                \<and> list_all Q buf'))"

text \<open>
  A statement that emits \<open>n\<close> triangle records: started at a cursor past the 84-byte prefix
  with room for \<open>50 * n\<close> bytes, on a buffer whose bytes are all of kind \<open>Q\<close>, it succeeds,
  advances the cursor by \<open>50 * n\<close>, keeps the buffer's length and prefix, adds \<open>n\<close> to the
  counter \<open>cnt\<close> and leaves a buffer whose bytes are all of kind \<open>Q\<close>.
\<close>

definition emits ::
  "(byte \<Rightarrow> bool) \<Rightarrow> ('a writer_scheme \<Rightarrow> nat) \<Rightarrow> nat
   \<Rightarrow> ('a writer_scheme \<Rightarrow> error + 'a writer_scheme) \<Rightarrow> bool"
where
  "emits Q cnt n f =
     (\<forall>s. 84 \<le> w_off s \<longrightarrow> w_off s + 50 * n \<le> length (w_buf s) \<longrightarrow> list_all Q (w_buf s) \<longrightarrow>
        (\<exists>s'. f s = Inr s' \<and> w_off s' = w_off s + 50 * n
              \<and> length (w_buf s') = length (w_buf s)
              \<and> take 84 (w_buf s') = take 84 (w_buf s)
              \<and> cnt s' = cnt s + n
              \<and> list_all Q (w_buf s')))"

text \<open>
  The number of 50-byte records that lie between the prefix and the cursor of
  \<^verbatim>\<open>src/docs/app.js\<close>, which keeps no counter of its own.
\<close>

definition emittedCount :: "writer \<Rightarrow> nat" where
  "emittedCount s = (w_off s - 84) div 50"

subsection \<open>Example inputs\<close>

text \<open>
  A parameter set with the identity tone settings, whose numbers are doubles; the double
  that the literal \<^verbatim>\<open>0.7\<close> denotes; and the canvas bytes of an image of one colour
  \<open>(c, c, c)\<close> with alpha \<open>a\<close>.
\<close>

definition exampleParams :: params where
  "exampleParams = \<lparr>widthMm = 100, widthPx = 10, baseMm = 3 / 4, reliefMm = 3 / 2, blackCut = 0,
     whiteCut = 1, toneGamma = 1, mapInvert = Some True, flipX = False, flipY = False\<rparr>"

definition double_0_7 :: real where
  "double_0_7 = 3152519739159347 / 4503599627370496"

text \<open>
  The doubles that the literals \<^verbatim>\<open>0.02\<close> and \<^verbatim>\<open>0.98\<close> denote, and the double
  \<^verbatim>\<open>0.033104766570885055\<close>, the luminance that double arithmetic gives the grey
  \<open>(51, 51, 51)\<close>.
\<close>

definition double_0_02 :: real where
  "double_0_02 = 5764607523034235 / 288230376151711744"

definition double_0_98 :: real where
  "double_0_98 = 2206763817411543 / 2251799813685248"

definition grey51 :: real where
  "grey51 = 2385449830285203 / 72057594037927936"

definition solidImage :: "8 word \<Rightarrow> 8 word \<Rightarrow> nat \<Rightarrow> nat \<Rightarrow> 8 word list" where
  "solidImage c a W H = map (\<lambda>i. if i mod 4 = 3 then a else c) [0..<4 * W * H]"

section \<open>Rounding is monotone and fixes the numbers it can hold\<close>

lemma roundEven_of_int: "roundEven (of_int n) = n"
  by (simp add: roundEven_def)

lemma roundEven_cases: "roundEven y = \<lfloor>y\<rfloor> \<or> roundEven y = \<lfloor>y\<rfloor> + 1"
  by (simp add: roundEven_def Let_def)

lemma roundEven_mono:
  assumes "a \<le> b"
  shows "roundEven a \<le> roundEven b"
proof (cases "\<lfloor>a\<rfloor> = \<lfloor>b\<rfloor>")
  case True
  then show ?thesis
    using assms by (auto simp: roundEven_def Let_def)
next
  case False
  then have "\<lfloor>a\<rfloor> < \<lfloor>b\<rfloor>"
    using floor_mono [OF assms] by linarith
  moreover have "roundEven a \<le> \<lfloor>a\<rfloor> + 1"
    using roundEven_cases [of a] by linarith
  moreover have "\<lfloor>b\<rfloor> \<le> roundEven b"
    using roundEven_cases [of b] by linarith
  ultimately show ?thesis
    by linarith
qed

lemma roundEven_between:
  assumes "of_int n \<le> y" and "y \<le> of_int m"
  shows "n \<le> roundEven y \<and> roundEven y \<le> m"
  using roundEven_mono [OF assms(1)] roundEven_mono [OF assms(2)]
  by (simp add: roundEven_of_int)

lemma rnd_zero: "rnd p 0 = 0"
  by (simp add: rnd_def)

lemma rnd_eval:
  assumes "0 < x" and "2 powr of_int e \<le> x" and "x < 2 powr of_int (e + 1)"
  shows "rnd p x = of_int (roundEven (x / 2 powr of_int (e - int p + 1))) * 2 powr of_int (e - int p + 1)"
proof -
  have "\<lfloor>log 2 x\<rfloor> = e"
    using assms by (subst floor_log_eq_powr_iff) (simp_all add: add.commute)
  then show ?thesis
    using assms(1) by (simp add: rnd_def Let_def)
qed

lemma binade:
  assumes "0 < x"
  shows "2 powr of_int \<lfloor>log 2 x\<rfloor> \<le> x \<and> x < 2 powr of_int (\<lfloor>log 2 x\<rfloor> + 1)"
  using floor_log_eq_powr_iff [of x 2 "\<lfloor>log 2 x\<rfloor>"] assms by (simp add: add.commute)

lemma powr_int_split: "2 powr of_int (a + b) = 2 powr of_int a * (2::real) powr of_int b"
  by (simp add: powr_add)

lemma powr_nat_int: "(2::real) powr of_int (int n) = of_int (2 ^ n)"
  by (simp add: powr_realpow)

lemma rnd_binade:
  assumes "0 < x" and "2 powr of_int e \<le> x" and "x < 2 powr of_int (e + 1)" and "0 < p"
  shows "2 powr of_int e \<le> rnd p x \<and> rnd p x \<le> 2 powr of_int (e + 1)"
proof -
  define u :: real where "u = 2 powr of_int (e - int p + 1)"
  have u: "0 < u"
    by (simp add: u_def)
  obtain q where p: "p = Suc q"
    using assms(4) by (cases p) auto
  have lo: "2 powr of_int e = of_int (2 ^ q) * u"
    unfolding u_def powr_nat_int [symmetric] powr_add [symmetric] by (simp add: p)
  have hi: "2 powr of_int (e + 1) = of_int (2 ^ p) * u"
    unfolding u_def powr_nat_int [symmetric] powr_add [symmetric] by (simp add: p add.commute)
  have "of_int (2 ^ q) \<le> x / u" and "x / u \<le> of_int (2 ^ p)"
    using assms(2,3) u unfolding lo hi by (simp_all add: field_simps)
  then have "2 ^ q \<le> roundEven (x / u) \<and> roundEven (x / u) \<le> 2 ^ p"
    by (rule roundEven_between)
  then have "(of_int (2 ^ q) :: real) \<le> of_int (roundEven (x / u))"
    and "(of_int (roundEven (x / u)) :: real) \<le> of_int (2 ^ p)"
    by (simp_all only: of_int_le_iff)
  then have "of_int (2 ^ q) * u \<le> of_int (roundEven (x / u)) * u"
    and "of_int (roundEven (x / u)) * u \<le> of_int (2 ^ p) * u"
    using u by (simp_all only: mult_le_cancel_right_pos)
  then show ?thesis
    unfolding lo hi rnd_eval [OF assms(1-3)] u_def by blast
qed

lemma rnd_mono_pos:
  assumes "0 < x" and "x \<le> y" and "0 < p"
  shows "rnd p x \<le> rnd p y"
proof -
  define ex where "ex = \<lfloor>log 2 x\<rfloor>"
  define ey where "ey = \<lfloor>log 2 y\<rfloor>"
  have y: "0 < y"
    using assms by linarith
  have bx: "2 powr of_int ex \<le> x" "x < 2 powr of_int (ex + 1)"
    using binade [OF assms(1)] by (simp_all add: ex_def)
  have by': "2 powr of_int ey \<le> y" "y < 2 powr of_int (ey + 1)"
    using binade [OF y] by (simp_all add: ey_def)
  have le: "ex \<le> ey"
    unfolding ex_def ey_def using assms by (intro floor_mono) simp
  show ?thesis
  proof (cases "ex = ey")
    case True
    define u :: real where "u = 2 powr of_int (ey - int p + 1)"
    have u: "0 < u"
      by (simp add: u_def)
    have "x / u \<le> y / u"
      using assms(2) u by (simp add: divide_right_mono)
    then have "roundEven (x / u) \<le> roundEven (y / u)"
      by (rule roundEven_mono)
    then have "(of_int (roundEven (x / u)) :: real) * u \<le> of_int (roundEven (y / u)) * u"
      using u by (simp only: mult_le_cancel_right_pos of_int_le_iff)
    then show ?thesis
      using bx by' unfolding True
      by (simp only: rnd_eval [OF assms(1)] rnd_eval [OF y] u_def)
  next
    case False
    then have "ex + 1 \<le> ey"
      using le by linarith
    then have "(2::real) powr of_int (ex + 1) \<le> 2 powr of_int ey"
      by simp
    moreover have "rnd p x \<le> 2 powr of_int (ex + 1)"
      using rnd_binade [OF assms(1) bx assms(3)] by blast
    moreover have "2 powr of_int ey \<le> rnd p y"
      using rnd_binade [OF y by' assms(3)] by blast
    ultimately show ?thesis
      by linarith
  qed
qed

lemma rnd_pos:
  assumes "0 < x" and "0 < p"
  shows "0 < rnd p x"
proof -
  have "2 powr of_int \<lfloor>log 2 x\<rfloor> \<le> rnd p x"
    using rnd_binade [OF assms(1) _ _ assms(2)] binade [OF assms(1)] by blast
  moreover have "(0::real) < 2 powr of_int \<lfloor>log 2 x\<rfloor>"
    by simp
  ultimately show ?thesis
    by linarith
qed

lemma rnd_mono:
  assumes "0 \<le> x" and "x \<le> y" and "0 < p"
  shows "rnd p x \<le> rnd p y"
proof (cases "x = 0")
  case True
  show ?thesis
  proof (cases "y = 0")
    case True
    with \<open>x = 0\<close> show ?thesis by simp
  next
    case False
    then have "0 < rnd p y"
      using assms by (intro rnd_pos) simp_all
    with \<open>x = 0\<close> show ?thesis
      by (simp add: rnd_zero)
  qed
next
  case False
  then show ?thesis
    using assms by (intro rnd_mono_pos) simp_all
qed

lemma rnd_one: "0 < p \<Longrightarrow> rnd p 1 = 1"
proof -
  assume p: "0 < p"
  then obtain q where q: "p = Suc q"
    by (cases p) auto
  have a: "(1::real) / 2 powr of_int (0 - int p + 1) = of_int (2 ^ q)"
    unfolding powr_nat_int [symmetric] by (simp add: q powr_minus field_simps)
  have b: "of_int (2 ^ q) * (2::real) powr of_int (0 - int p + 1) = 1"
    unfolding powr_nat_int [symmetric] powr_add [symmetric] by (simp add: q)
  have "rnd p 1 = of_int (roundEven (1 / 2 powr of_int (0 - int p + 1))) * 2 powr of_int (0 - int p + 1)"
    by (rule rnd_eval) simp_all
  then show ?thesis
    unfolding a roundEven_of_int b .
qed

lemma dbl_mono: "0 \<le> x \<Longrightarrow> x \<le> y \<Longrightarrow> dbl x \<le> dbl y"
  by (simp add: dbl_def rnd_mono)

lemma fround_mono: "0 \<le> x \<Longrightarrow> x \<le> y \<Longrightarrow> fround x \<le> fround y"
  by (simp add: fround_def rnd_mono)

lemma dbl_zero: "dbl 0 = 0"
  by (simp add: dbl_def rnd_zero)

lemma dbl_one: "dbl 1 = 1"
  by (simp add: dbl_def rnd_one)

lemma fround_zero: "fround 0 = 0"
  by (simp add: fround_def rnd_zero)

lemma dbl_nonneg: "0 \<le> x \<Longrightarrow> 0 \<le> dbl x"
  using dbl_mono [of 0 x] by (simp add: dbl_zero)

lemma dbl_unit: "0 \<le> x \<Longrightarrow> x \<le> 1 \<Longrightarrow> 0 \<le> dbl x \<and> dbl x \<le> 1"
  using dbl_mono [of 0 x] dbl_mono [of x 1] by (simp add: dbl_zero dbl_one)

lemma fround_nonneg: "0 \<le> x \<Longrightarrow> 0 \<le> fround x"
  using fround_mono [of 0 x] by (simp add: fround_zero)

lemma dbl_literal_1e_9: "dbl (1 / 10 ^ 9) = 4835703278458517 / 2 ^ 82"
  unfolding dbl_def
  by (subst rnd_eval [where e = "-30"]) (simp_all add: roundEven_def Let_def powr_neg_numeral)

lemma dbl_literal_1e_9_bounds: "1 / 10 ^ 9 \<le> dbl (1 / 10 ^ 9)" "dbl (1 / 10 ^ 9) \<le> 1"
  unfolding dbl_literal_1e_9 by simp_all

lemma dbl_half: "dbl (1 / 2) = 1 / 2"
  unfolding dbl_def
  by (subst rnd_eval [where e = "-1"]) (simp_all add: roundEven_def Let_def powr_neg_numeral)

lemma dbl_quarter: "dbl (1 / 4) = 1 / 4"
  unfolding dbl_def
  by (subst rnd_eval [where e = "-2"]) (simp_all add: roundEven_def Let_def powr_neg_numeral)

lemma dbl_five: "dbl 5 = 5"
  unfolding dbl_def
  by (subst rnd_eval [where e = "2"]) (simp_all add: roundEven_def Let_def powr_neg_numeral)

section \<open>The pixel loops write every cell once\<close>

lemma fold_nested_product:
  "fold (\<lambda>y. fold (\<lambda>x. F x y) xs) ys s = fold (\<lambda>(y, x). F x y) (List.product ys xs) s"
  by (induction ys arbitrary: s) (simp_all add: fold_map comp_def)

lemma fold_update_length:
  "length (fold (\<lambda>k th. th[f k := g k]) ks th) = length th"
  by (induction ks arbitrary: th) simp_all

lemma fold_update_other:
  "i \<notin> f ` set ks \<Longrightarrow> fold (\<lambda>k th. th[f k := g k]) ks th ! i = th ! i"
  by (induction ks arbitrary: th) auto

lemma fold_update_nth:
  "distinct (map f ks) \<Longrightarrow> k \<in> set ks \<Longrightarrow> f k < length th
   \<Longrightarrow> fold (\<lambda>k th. th[f k := g k]) ks th ! f k = g k"
proof (induction ks arbitrary: th)
  case Nil
  then show ?case by simp
next
  case (Cons a ks)
  show ?case
  proof (cases "k = a")
    case True
    with Cons.prems have "f k \<notin> f ` set ks" by auto
    then show ?thesis using Cons.prems True
      by (simp add: fold_update_other)
  next
    case False
    with Cons.prems show ?thesis by (simp add: Cons.IH)
  qed
qed

lemma writeIndex_lt:
  assumes "x < W" "y < H"
  shows "writeIndex p W H x y < W * H"
proof -
  let ?ox = "if flipX p then W - 1 - x else x"
  let ?oy = "if flipY p then H - 1 - y else y"
  have ox: "?ox < W" and oy: "?oy < H" using assms by auto
  have "?oy * W + ?ox < ?oy * W + W" using ox by simp
  also have "\<dots> = Suc ?oy * W" by simp
  also have "\<dots> \<le> H * W" using oy by (intro mult_le_mono1) simp
  finally show ?thesis by (simp add: writeIndex_def Let_def mult.commute)
qed

lemma writeIndex_div_mod:
  assumes "x < W"
  shows "writeIndex p W H x y mod W = (if flipX p then W - 1 - x else x)"
    and "writeIndex p W H x y div W = (if flipY p then H - 1 - y else y)"
  using assms by (auto simp: writeIndex_def Let_def)

lemma writeIndex_inj:
  assumes "x < W" "y < H" "x' < W" "y' < H"
    and "writeIndex p W H x y = writeIndex p W H x' y'"
  shows "x = x' \<and> y = y'"
proof -
  have "(if flipX p then W - 1 - x else x) = (if flipX p then W - 1 - x' else x')"
    using writeIndex_div_mod(1)[of x W p H y] writeIndex_div_mod(1)[of x' W p H y'] assms by simp
  moreover have "(if flipY p then H - 1 - y else y) = (if flipY p then H - 1 - y' else y')"
    using writeIndex_div_mod(2)[of x W p H y] writeIndex_div_mod(2)[of x' W p H y'] assms by simp
  ultimately show ?thesis using assms by (auto split: if_splits)
qed

lemma writeIndex_distinct:
  "distinct (map (\<lambda>(y, x). writeIndex p W H x y) (List.product [0..<H] [0..<W]))"
proof -
  have "inj_on (\<lambda>(y, x). writeIndex p W H x y) (set (List.product [0..<H] [0..<W]))"
    by (rule inj_onI) (auto dest: writeIndex_inj)
  then show ?thesis by (simp add: distinct_map distinct_product)
qed

lemma pixelLoops_eq:
  "pixelLoops pixel p data W H =
     fold (\<lambda>k th. th[(\<lambda>(y, x). writeIndex p W H x y) k
                   := (\<lambda>(y, x). fround (pixel p data ((y * W + x) * 4))) k])
       (List.product [0..<H] [0..<W]) (replicate (W * H) 0)"
  unfolding pixelLoops_def
  by (simp add: fold_nested_product case_prod_unfold)

lemma pixelLoops_length: "length (pixelLoops pixel p data W H) = W * H"
  by (simp add: pixelLoops_eq fold_update_length)

lemma pixelLoops_nth:
  assumes "x < W" "y < H"
  shows "pixelLoops pixel p data W H ! writeIndex p W H x y
         = fround (pixel p data ((y * W + x) * 4))"
proof -
  let ?f = "\<lambda>(y, x). writeIndex p W H x y"
  let ?g = "\<lambda>(y, x). fround (pixel p data ((y * W + x) * 4))"
  have "fold (\<lambda>k th. th[?f k := ?g k]) (List.product [0..<H] [0..<W]) (replicate (W * H) 0) ! ?f (y, x)
        = ?g (y, x)"
    by (rule fold_update_nth[OF writeIndex_distinct]) (use assms in \<open>simp_all add: writeIndex_lt\<close>)
  then show ?thesis by (simp add: pixelLoops_eq)
qed

lemma writeIndex_surj:
  assumes "i < W * H"
  shows "\<exists>x<W. \<exists>y<H. i = writeIndex p W H x y"
proof -
  have W: "0 < W" using assms by (cases W) auto
  let ?ox = "i mod W" and ?oy = "i div W"
  have ox: "?ox < W" using W by simp
  have oy: "?oy < H" using assms by (simp add: less_mult_imp_div_less mult.commute)
  let ?x = "if flipX p then W - 1 - ?ox else ?ox"
  let ?y = "if flipY p then H - 1 - ?oy else ?oy"
  have "?x < W" "?y < H" using ox oy by auto
  moreover have "writeIndex p W H ?x ?y = i"
    using ox oy by (auto simp: writeIndex_def Let_def)
  ultimately show ?thesis by metis
qed

section \<open>Properties of the thickness field builder\<close>

lemma pixelLoops_pixels:
  assumes "\<And>x y. x < W \<Longrightarrow> y < H \<Longrightarrow> P (fround (pixel p data ((y * W + x) * 4)))"
    and "t \<in> set (pixelLoops pixel p data W H)"
  shows "P t"
proof -
  from assms(2) obtain i where i: "i < W * H" and t: "t = pixelLoops pixel p data W H ! i"
    by (auto simp: in_set_conv_nth pixelLoops_length)
  from writeIndex_surj[OF i] obtain x y where "x < W" "y < H" "i = writeIndex p W H x y"
    by blast
  then show ?thesis using t assms(1) by (simp add: pixelLoops_nth)
qed

lemma clipNormalize_unit: "0 \<le> clipNormalize p Y \<and> clipNormalize p Y \<le> 1"
  by (simp add: clipNormalize_def)

lemma Math_pow_unit:
  assumes "0 \<le> Y" "Y \<le> 1" "0 \<le> e"
  shows "0 \<le> Math_pow Y e \<and> Math_pow Y e \<le> 1"
  unfolding Math_pow_def using assms by (intro dbl_unit) (simp_all add: powr_le1)

lemma reciprocal_nonneg: "0 < g \<Longrightarrow> 0 \<le> dbl (1 / g)"
  by (rule dbl_nonneg) simp

lemma toneCurve_docs_unit:
  "0 < toneGamma p \<Longrightarrow> 0 \<le> Y \<Longrightarrow> Y \<le> 1 \<Longrightarrow> 0 \<le> toneCurve_docs p Y \<and> toneCurve_docs p Y \<le> 1"
  using Math_pow_unit[of Y "dbl (1 / toneGamma p)"] reciprocal_nonneg[of "toneGamma p"]
  by (simp add: toneCurve_docs_def)

lemma toneCurve_p0_unit:
  "0 < toneGamma p \<Longrightarrow> 0 \<le> Y \<Longrightarrow> Y \<le> 1 \<Longrightarrow> 0 \<le> toneCurve_p0 p Y \<and> toneCurve_p0 p Y \<le> 1"
  using Math_pow_unit[of Y "dbl (1 / toneGamma p)"] reciprocal_nonneg[of "toneGamma p"]
  by (simp add: toneCurve_p0_def)

lemma scale_range:
  assumes "0 \<le> b" "0 \<le> r" "0 \<le> v" "v \<le> 1" "dbl b = b" "dbl r = r"
  shows "b \<le> dbl (b + dbl (r * v)) \<and> dbl (b + dbl (r * v)) \<le> dbl (b + r)"
proof -
  have "0 \<le> r * v" using assms by simp
  moreover have "r * v \<le> r * 1" using assms by (intro mult_left_mono) simp_all
  ultimately have m: "0 \<le> dbl (r * v)" "dbl (r * v) \<le> r"
    using dbl_nonneg[of "r * v"] dbl_mono[of "r * v" r] assms(6) by simp_all
  have "dbl b \<le> dbl (b + dbl (r * v))"
    using assms(1) m(1) by (intro dbl_mono) simp_all
  moreover have "dbl (b + dbl (r * v)) \<le> dbl (b + r)"
    using assms(1) m by (intro dbl_mono) simp_all
  ultimately show ?thesis using assms(5) by simp
qed

lemma direction_unit:
  assumes "0 \<le> Y" "Y \<le> 1"
  shows "0 \<le> (if c then dbl (1 - Y) else Y) \<and> (if c then dbl (1 - Y) else Y) \<le> 1"
  using assms dbl_unit[of "1 - Y"] by simp

lemma toThickness_docs_range:
  assumes "0 \<le> baseMm p" "0 \<le> reliefMm p" "0 < toneGamma p"
    and "dbl (baseMm p) = baseMm p" "dbl (reliefMm p) = reliefMm p"
  shows "baseMm p \<le> toThickness_docs p Y \<and> toThickness_docs p Y \<le> dbl (baseMm p + reliefMm p)"
proof -
  let ?Y = "toneCurve_docs p (clipNormalize p Y)"
  have u: "0 \<le> ?Y" "?Y \<le> 1"
    using toneCurve_docs_unit[OF assms(3)] clipNormalize_unit by blast+
  show ?thesis
    unfolding toThickness_docs_def Let_def
    using direction_unit[OF u] by (intro scale_range assms) blast+
qed

lemma toThickness_p0_range:
  assumes "0 \<le> baseMm p" "0 \<le> reliefMm p" "0 < toneGamma p"
    and "dbl (baseMm p) = baseMm p" "dbl (reliefMm p) = reliefMm p"
  shows "baseMm p \<le> toThickness_p0 p Y \<and> toThickness_p0 p Y \<le> dbl (baseMm p + reliefMm p)"
proof -
  let ?Y = "toneCurve_p0 p (clipNormalize p Y)"
  have u: "0 \<le> ?Y" "?Y \<le> 1"
    using toneCurve_p0_unit[OF assms(3)] clipNormalize_unit by blast+
  show ?thesis
    unfolding toThickness_p0_def Let_def
    using direction_unit[OF u] by (intro scale_range assms) blast+
qed

lemma stored_range:
  assumes "0 \<le> b" "b \<le> t" "t \<le> c"
  shows "fround b \<le> fround t \<and> fround t \<le> fround c"
  using assms by (intro conjI fround_mono) simp_all

lemma ctm_docs_sel:
  "tm_W (computeThicknessMap_docs draw imgW imgH p) = widthPx p"
  "tm_H (computeThicknessMap_docs draw imgW imgH p)
     = nat (max 1 (scaledHeight imgW imgH (widthPx p)))"
  "tm_pxMm (computeThicknessMap_docs draw imgW imgH p) = dbl (widthMm p / real (widthPx p))"
  "tm_thickness (computeThicknessMap_docs draw imgW imgH p)
     = pixelLoops pixelThickness_docs p
         (draw (widthPx p) (nat (max 1 (scaledHeight imgW imgH (widthPx p)))))
         (widthPx p) (nat (max 1 (scaledHeight imgW imgH (widthPx p))))"
  by (simp_all add: computeThicknessMap_docs_def Let_def)

lemma ctm_p0_sel:
  "tm_W (computeThicknessMap_p0 draw imgW imgH p) = widthPx p"
  "tm_H (computeThicknessMap_p0 draw imgW imgH p) = nat (scaledHeight imgW imgH (widthPx p))"
  "tm_pxMm (computeThicknessMap_p0 draw imgW imgH p) = dbl (widthMm p / real (widthPx p))"
  "tm_thickness (computeThicknessMap_p0 draw imgW imgH p)
     = pixelLoops pixelThickness_p0 p
         (draw (widthPx p) (nat (scaledHeight imgW imgH (widthPx p))))
         (widthPx p) (nat (scaledHeight imgW imgH (widthPx p)))"
  by (simp_all add: computeThicknessMap_p0_def Let_def)

lemma gamma_positive: "1 / 2 ^ 1022 \<le> g \<Longrightarrow> 0 < (g::real)"
proof -
  assume "1 / 2 ^ 1022 \<le> g"
  moreover have "(0::real) < 1 / 2 ^ 1022" by simp
  ultimately show ?thesis by (rule less_le_trans[rotated])
qed


text \<open>
  Claim C1, with the rounding of the store. For valid parameters (\<open>baseMm \<ge> 0\<close> and
  \<open>reliefMm \<ge> 0\<close>, both doubles; \<open>blackCut < whiteCut\<close>; \<open>toneGamma\<close> positive and at
  least \<open>2 ^ - 1022\<close>, so that the double \<^verbatim>\<open>1.0 / toneGamma\<close> is finite) and every image,
  every value of the thickness field that \<^verbatim>\<open>computeThicknessMap\<close> returns lies between
  \<^verbatim>\<open>Math.fround(baseMm)\<close> and \<^verbatim>\<open>Math.fround(baseMm + reliefMm)\<close>: the claimed interval
  with its ends rounded to single precision, as the \<^verbatim>\<open>Float32Array\<close> rounds the values.
  In both variants; the canvas hands over \<open>4 * W * H\<close> bytes.
\<close>

theorem thickness_in_range:
  assumes "0 \<le> baseMm p" "0 \<le> reliefMm p" "1 / 2 ^ 1022 \<le> toneGamma p"
    and "blackCut p < whiteCut p"
    and "dbl (baseMm p) = baseMm p" "dbl (reliefMm p) = reliefMm p"
    and "\<And>W H. length (draw W H) = 4 * W * H"
  shows "(\<forall>t \<in> set (tm_thickness (computeThicknessMap_docs draw imgW imgH p)).
            fround (baseMm p) \<le> t \<and> t \<le> fround (dbl (baseMm p + reliefMm p)))
       \<and> (\<forall>t \<in> set (tm_thickness (computeThicknessMap_p0 draw imgW imgH p)).
            fround (baseMm p) \<le> t \<and> t \<le> fround (dbl (baseMm p + reliefMm p)))"
proof -
  note g = gamma_positive[OF assms(3)]
  have "fround (baseMm p) \<le> t \<and> t \<le> fround (dbl (baseMm p + reliefMm p))"
    if "t \<in> set (tm_thickness (computeThicknessMap_docs draw imgW imgH p))" for t
    using that unfolding ctm_docs_sel
  proof (rule pixelLoops_pixels[rotated])
    fix x y
    show "fround (baseMm p) \<le> fround (pixelThickness_docs p (draw (widthPx p)
              (nat (max 1 (scaledHeight imgW imgH (widthPx p))))) ((y * widthPx p + x) * 4))
          \<and> fround (pixelThickness_docs p (draw (widthPx p)
              (nat (max 1 (scaledHeight imgW imgH (widthPx p))))) ((y * widthPx p + x) * 4))
            \<le> fround (dbl (baseMm p + reliefMm p))"
      unfolding pixelThickness_docs_def
      using toThickness_docs_range[OF assms(1,2) g assms(5,6)]
      by (intro stored_range assms(1)) blast+
  qed
  moreover have "fround (baseMm p) \<le> t \<and> t \<le> fround (dbl (baseMm p + reliefMm p))"
    if "t \<in> set (tm_thickness (computeThicknessMap_p0 draw imgW imgH p))" for t
    using that unfolding ctm_p0_sel
  proof (rule pixelLoops_pixels[rotated])
    fix x y
    show "fround (baseMm p) \<le> fround (pixelThickness_p0 p (draw (widthPx p)
              (nat (scaledHeight imgW imgH (widthPx p)))) ((y * widthPx p + x) * 4))
          \<and> fround (pixelThickness_p0 p (draw (widthPx p)
              (nat (scaledHeight imgW imgH (widthPx p)))) ((y * widthPx p + x) * 4))
            \<le> fround (dbl (baseMm p + reliefMm p))"
      unfolding pixelThickness_p0_def
      using toThickness_p0_range[OF assms(1,2) g assms(5,6)]
      by (intro stored_range assms(1)) blast+
  qed
  ultimately show ?thesis by blast
qed

lemma pixelLoops_read:
  assumes "x < W" "y < H"
  shows "pixelLoops pixel p data W H ! (y * W + x)
         = fround (pixel p data (((if flipY p then H - 1 - y else y) * W
                                  + (if flipX p then W - 1 - x else x)) * 4))"
proof -
  let ?sx = "if flipX p then W - 1 - x else x"
  let ?sy = "if flipY p then H - 1 - y else y"
  have s: "?sx < W" "?sy < H" using assms by auto
  have "writeIndex p W H ?sx ?sy = y * W + x"
    using assms by (auto simp: writeIndex_def Let_def)
  with pixelLoops_nth[OF s, of pixel p data] show ?thesis by simp
qed

lemma pixelLoops_uniform:
  assumes "\<And>x y. x < W \<Longrightarrow> y < H \<Longrightarrow> pixel p data ((y * W + x) * 4) = c"
  shows "pixelLoops pixel p data W H = replicate (W * H) (fround c)"
proof -
  have "\<forall>t \<in> set (pixelLoops pixel p data W H). t = fround c"
    using pixelLoops_pixels[where P = "\<lambda>t. t = fround c" and pixel = pixel and p = p
        and data = data and W = W and H = H] assms by simp
  then have "replicate (length (pixelLoops pixel p data W H)) (fround c)
             = pixelLoops pixel p data W H"
    by (rule replicate_length_same)
  then show ?thesis by (simp add: pixelLoops_length)
qed

lemma pixel_index_lt:
  assumes "x < W" "y < H" shows "y * W + x < W * (H::nat)"
proof -
  have "y * W + x < y * W + W" using assms by simp
  also have "\<dots> = Suc y * W" by simp
  also have "\<dots> \<le> H * W" using assms by (intro mult_le_mono1) simp
  finally show ?thesis by (simp add: mult.commute)
qed

lemma srgbToLinear_0: "srgbToLinear 0 = 0"
  by (simp add: srgbToLinear_def)

lemma srgbToLinear_1: "srgbToLinear 1 = 1"
  by (simp add: srgbToLinear_def)

lemma luminance_white:
  assumes "rgbOf data k = (255, 255, 255)"
  shows "luminance data (k * 4) = 1"
  using assms by (simp add: luminance_def rgbOf_def Let_def mult.commute srgbToLinear_1)

lemma luminance_black:
  assumes "rgbOf data k = (0, 0, 0)"
  shows "luminance data (k * 4) = 0"
  using assms by (simp add: luminance_def rgbOf_def Let_def mult.commute srgbToLinear_0)

lemma identity_clip:
  assumes "blackCut p = 0" "whiteCut p = 1"
  shows "clipNormalize p 1 = 1" "clipNormalize p 0 = 0"
proof -
  have c: "cutRange p = 1"
    using assms dbl_literal_1e_9_bounds(2) by (simp add: cutRange_def dbl_one)
  have i: "invRange p = 1"
    by (simp add: invRange_def c dbl_one)
  show "clipNormalize p 1 = 1" "clipNormalize p 0 = 0"
    using assms by (simp_all add: clipNormalize_def i dbl_one dbl_zero)
qed

lemma identity_tone:
  assumes "toneGamma p = 1"
  shows "toneCurve_docs p Y = Y" "toneCurve_p0 p Y = Y"
proof -
  have "0 \<le> dbl (1 / 10 ^ 9)" by (rule dbl_nonneg) simp
  then show "toneCurve_docs p Y = Y"
    using assms by (simp add: toneCurve_docs_def dbl_zero)
  show "toneCurve_p0 p Y = Y"
    using assms by (simp add: toneCurve_p0_def)
qed

lemma toThickness_identity_settings:
  assumes "mapInvert p = Some True" "blackCut p = 0" "whiteCut p = 1" "toneGamma p = 1"
    and "dbl (baseMm p) = baseMm p" "dbl (reliefMm p) = reliefMm p"
  shows "toThickness_docs p 1 = baseMm p" "toThickness_docs p 0 = dbl (baseMm p + reliefMm p)"
    "toThickness_p0 p 1 = baseMm p" "toThickness_p0 p 0 = dbl (baseMm p + reliefMm p)"
  using assms(1,5,6)
  by (simp_all add: toThickness_docs_def toThickness_p0_def identity_clip[OF assms(2,3)]
      identity_tone[OF assms(4)] Let_def dbl_zero dbl_one)

lemma uniformPixels_nth: "uniformPixels data n c \<Longrightarrow> k < n \<Longrightarrow> rgbOf data k = (c, c, c)"
  by (simp add: uniformPixels_def list_all_iff)

lemma monochrome_loops:
  assumes "mapInvert p = Some True" "blackCut p = 0" "whiteCut p = 1" "toneGamma p = 1"
    and "dbl (baseMm p) = baseMm p" "dbl (reliefMm p) = reliefMm p"
    and px: "px = pixelThickness_docs \<or> px = pixelThickness_p0"
  shows "uniformPixels d (W * H) 255
         \<Longrightarrow> pixelLoops px p d W H = replicate (W * H) (fround (baseMm p))"
    and "uniformPixels d (W * H) 0
         \<Longrightarrow> pixelLoops px p d W H = replicate (W * H) (fround (dbl (baseMm p + reliefMm p)))"
proof -
  assume u: "uniformPixels d (W * H) 255"
  show "pixelLoops px p d W H = replicate (W * H) (fround (baseMm p))"
  proof (rule pixelLoops_uniform)
    fix x y assume "x < W" "y < H"
    then have "luminance d ((y * W + x) * 4) = 1"
      by (intro luminance_white uniformPixels_nth[OF u] pixel_index_lt)
    then show "px p d ((y * W + x) * 4) = baseMm p"
      using px toThickness_identity_settings[OF assms(1-6)]
      by (auto simp: pixelThickness_docs_def pixelThickness_p0_def)
  qed
next
  assume u: "uniformPixels d (W * H) 0"
  show "pixelLoops px p d W H = replicate (W * H) (fround (dbl (baseMm p + reliefMm p)))"
  proof (rule pixelLoops_uniform)
    fix x y assume "x < W" "y < H"
    then have "luminance d ((y * W + x) * 4) = 0"
      by (intro luminance_black uniformPixels_nth[OF u] pixel_index_lt)
    then show "px p d ((y * W + x) * 4) = dbl (baseMm p + reliefMm p)"
      using px toThickness_identity_settings[OF assms(1-6)]
      by (auto simp: pixelThickness_docs_def pixelThickness_p0_def)
  qed
qed


text \<open>
  Claim C7, with the rounding of the store. With \<open>invert = true\<close>, \<open>blackCut = 0\<close>,
  \<open>whiteCut = 1\<close>, \<open>toneGamma = 1\<close> and doubles \<open>baseMm\<close> and \<open>reliefMm\<close>, an input whose
  every resampled pixel is white \<open>(255, 255, 255)\<close> gives a field that is
  \<^verbatim>\<open>Math.fround(baseMm)\<close> everywhere, and one whose every resampled pixel is black gives a
  field that is \<^verbatim>\<open>Math.fround(baseMm + reliefMm)\<close> everywhere; in both variants.
\<close>

theorem monochrome_fields:
  assumes "mapInvert p = Some True" "blackCut p = 0" "whiteCut p = 1" "toneGamma p = 1"
    and "dbl (baseMm p) = baseMm p" "dbl (reliefMm p) = reliefMm p"
    and "ctm \<in> {computeThicknessMap_docs, computeThicknessMap_p0}"
    and "m = ctm draw imgW imgH p"
  shows "(uniformPixels (draw (tm_W m) (tm_H m)) (tm_W m * tm_H m) 255 \<longrightarrow>
            tm_thickness m = replicate (tm_W m * tm_H m) (fround (baseMm p)))
       \<and> (uniformPixels (draw (tm_W m) (tm_H m)) (tm_W m * tm_H m) 0 \<longrightarrow>
            tm_thickness m
              = replicate (tm_W m * tm_H m) (fround (dbl (baseMm p + reliefMm p))))"
proof -
  note L = monochrome_loops[OF assms(1-6)]
  from assms(7) consider "ctm = computeThicknessMap_docs" | "ctm = computeThicknessMap_p0"
    by blast
  then show ?thesis
  proof cases
    case 1
    then show ?thesis
      using L[of pixelThickness_docs] by (simp add: assms(8) ctm_docs_sel)
  next
    case 2
    then show ?thesis
      using L[of pixelThickness_p0] by (simp add: assms(8) ctm_p0_sel)
  qed
qed

lemma pixelThickness_flip_indep:
  "pixelThickness_docs (p\<lparr>flipX := b\<rparr>) = pixelThickness_docs p"
  "pixelThickness_docs (p\<lparr>flipY := b\<rparr>) = pixelThickness_docs p"
  "pixelThickness_p0 (p\<lparr>flipX := b\<rparr>) = pixelThickness_p0 p"
  "pixelThickness_p0 (p\<lparr>flipY := b\<rparr>) = pixelThickness_p0 p"
  by (simp_all add: fun_eq_iff pixelThickness_docs_def pixelThickness_p0_def toThickness_docs_def
      toThickness_p0_def clipNormalize_def invRange_def cutRange_def toneCurve_docs_def
      toneCurve_p0_def Let_def)

lemma pixelLoops_flip_laws:
  assumes "x < W" "y < H"
    and "\<And>b. pixel (p\<lparr>flipX := b\<rparr>) = pixel p" "\<And>b. pixel (p\<lparr>flipY := b\<rparr>) = pixel p"
  shows "pixelLoops pixel (p\<lparr>flipX := True\<rparr>) data W H ! (y * W + x)
         = pixelLoops pixel (p\<lparr>flipX := False\<rparr>) data W H ! (y * W + (W - 1 - x))"
    and "pixelLoops pixel (p\<lparr>flipY := True\<rparr>) data W H ! (y * W + x)
         = pixelLoops pixel (p\<lparr>flipY := False\<rparr>) data W H ! ((H - 1 - y) * W + x)"
    and "pixelLoops pixel p data W H
           ! ((if flipY p then H - 1 - y else y) * W + (if flipX p then W - 1 - x else x))
         = fround (pixel p data ((y * W + x) * 4))"
proof -
  have x': "W - 1 - x < W" and y': "H - 1 - y < H" using assms(1,2) by simp_all
  have "pixelLoops pixel (p\<lparr>flipX := True\<rparr>) data W H ! (y * W + x)
        = fround (pixel p data (((if flipY p then H - 1 - y else y) * W + (W - 1 - x)) * 4))"
    using pixelLoops_read[OF assms(1,2), of pixel "p\<lparr>flipX := True\<rparr>" data] assms(3) by simp
  moreover have "pixelLoops pixel (p\<lparr>flipX := False\<rparr>) data W H ! (y * W + (W - 1 - x))
        = fround (pixel p data (((if flipY p then H - 1 - y else y) * W + (W - 1 - x)) * 4))"
    using pixelLoops_read[OF x' assms(2), of pixel "p\<lparr>flipX := False\<rparr>" data] assms(3) by simp
  ultimately show "pixelLoops pixel (p\<lparr>flipX := True\<rparr>) data W H ! (y * W + x)
         = pixelLoops pixel (p\<lparr>flipX := False\<rparr>) data W H ! (y * W + (W - 1 - x))"
    by (rule trans[OF _ sym])
  have "pixelLoops pixel (p\<lparr>flipY := True\<rparr>) data W H ! (y * W + x)
        = fround (pixel p data (((H - 1 - y) * W + (if flipX p then W - 1 - x else x)) * 4))"
    using pixelLoops_read[OF assms(1,2), of pixel "p\<lparr>flipY := True\<rparr>" data] assms(4) by simp
  moreover have "pixelLoops pixel (p\<lparr>flipY := False\<rparr>) data W H ! ((H - 1 - y) * W + x)
        = fround (pixel p data (((H - 1 - y) * W + (if flipX p then W - 1 - x else x)) * 4))"
    using pixelLoops_read[OF assms(1) y', of pixel "p\<lparr>flipY := False\<rparr>" data] assms(4) by simp
  ultimately show "pixelLoops pixel (p\<lparr>flipY := True\<rparr>) data W H ! (y * W + x)
         = pixelLoops pixel (p\<lparr>flipY := False\<rparr>) data W H ! ((H - 1 - y) * W + x)"
    by (rule trans[OF _ sym])
  have "(if flipY p then H - 1 - y else y) * W + (if flipX p then W - 1 - x else x)
        = writeIndex p W H x y"
    by (simp add: writeIndex_def Let_def)
  then show "pixelLoops pixel p data W H
           ! ((if flipY p then H - 1 - y else y) * W + (if flipX p then W - 1 - x else x))
         = fround (pixel p data ((y * W + x) * 4))"
    using pixelLoops_nth[OF assms(1,2)] by simp
qed

lemma ctm_docs_loops:
  assumes "W = tm_W (computeThicknessMap_docs draw imgW imgH p)"
    and "H = tm_H (computeThicknessMap_docs draw imgW imgH p)"
    and "widthPx q = widthPx p"
  shows "tm_thickness (computeThicknessMap_docs draw imgW imgH q)
           = pixelLoops pixelThickness_docs q (draw W H) W H"
    and "tm_W (computeThicknessMap_docs draw imgW imgH q) = W"
  using assms by (simp_all add: ctm_docs_sel)

lemma ctm_p0_loops:
  assumes "W = tm_W (computeThicknessMap_p0 draw imgW imgH p)"
    and "H = tm_H (computeThicknessMap_p0 draw imgW imgH p)"
    and "widthPx q = widthPx p"
  shows "tm_thickness (computeThicknessMap_p0 draw imgW imgH q)
           = pixelLoops pixelThickness_p0 q (draw W H) W H"
    and "tm_W (computeThicknessMap_p0 draw imgW imgH q) = W"
  using assms by (simp_all add: ctm_p0_sel)

text \<open>
  Claim C6. The field built with \<open>flipX = true\<close> is the field built with \<open>flipX = false\<close>
  read at the reversed column \<open>W - 1 - x\<close>, and likewise for \<open>flipY\<close> and the row
  \<open>H - 1 - y\<close>; reversing an index twice gives it back; and the value of pixel \<open>(x, y)\<close> is
  written (rounded to single precision) at the one position
  \<open>(flipX ? W - 1 - x : x, flipY ? H - 1 - y : y)\<close> of the field of \<open>W * H\<close> cells. In both
  variants.
\<close>

theorem flip_reverses_index:
  assumes "(ctm, pixel) \<in> {(computeThicknessMap_docs, pixelThickness_docs),
                            (computeThicknessMap_p0, pixelThickness_p0)}"
    and "W = tm_W (ctm draw imgW imgH p)" and "H = tm_H (ctm draw imgW imgH p)"
    and "x < W" and "y < H"
  shows "fieldAt (ctm draw imgW imgH (p\<lparr>flipX := True\<rparr>)) x y
           = fieldAt (ctm draw imgW imgH (p\<lparr>flipX := False\<rparr>)) (W - 1 - x) y
       \<and> fieldAt (ctm draw imgW imgH (p\<lparr>flipY := True\<rparr>)) x y
           = fieldAt (ctm draw imgW imgH (p\<lparr>flipY := False\<rparr>)) x (H - 1 - y)
       \<and> W - 1 - (W - 1 - x) = x \<and> H - 1 - (H - 1 - y) = y
       \<and> fieldAt (ctm draw imgW imgH p)
            (if flipX p then W - 1 - x else x) (if flipY p then H - 1 - y else y)
           = fround (pixel p (draw W H) ((y * W + x) * 4))
       \<and> length (tm_thickness (ctm draw imgW imgH p)) = W * H"
proof -
  have F: "fieldAt (ctm draw imgW imgH q) a b = pixelLoops pixel q (draw W H) W H ! (b * W + a)"
    and L: "length (tm_thickness (ctm draw imgW imgH q)) = W * H"
    if "widthPx q = widthPx p" for q a b
    using assms(1) ctm_docs_loops[OF _ _ that, of W draw imgW imgH H]
      ctm_p0_loops[OF _ _ that, of W draw imgW imgH H] assms(2,3)
    by (auto simp: fieldAt_def pixelLoops_length)
  have inv: "pixel (p\<lparr>flipX := b\<rparr>) = pixel p" "pixel (p\<lparr>flipY := b\<rparr>) = pixel p" for b
    using assms(1) by (auto simp: pixelThickness_flip_indep)
  have FX: "fieldAt (ctm draw imgW imgH (p\<lparr>flipX := b\<rparr>)) a c
            = pixelLoops pixel (p\<lparr>flipX := b\<rparr>) (draw W H) W H ! (c * W + a)" for a b c
    by (rule F) simp
  have FY: "fieldAt (ctm draw imgW imgH (p\<lparr>flipY := b\<rparr>)) a c
            = pixelLoops pixel (p\<lparr>flipY := b\<rparr>) (draw W H) W H ! (c * W + a)" for a b c
    by (rule F) simp
  have F0: "fieldAt (ctm draw imgW imgH p) a c = pixelLoops pixel p (draw W H) W H ! (c * W + a)"
    for a c by (rule F) simp
  have L0: "length (tm_thickness (ctm draw imgW imgH p)) = W * H"
    by (rule L) simp
  have "W - 1 - (W - 1 - x) = x" "H - 1 - (H - 1 - y) = y"
    using assms(4,5) by simp_all
  then show ?thesis
    unfolding FX FY F0 L0
    using pixelLoops_flip_laws[OF assms(4,5) inv, of "draw W H"] by blast
qed













lemma dims_docs:
  assumes "1 \<le> imgW" "1 \<le> imgH" "widthPx p = getParams_widthPx_docs v"
    and "m = computeThicknessMap_docs draw imgW imgH p"
  shows "tm_W m = nat (max 10 \<lfloor>v\<rfloor>) \<and> 10 \<le> tm_W m
       \<and> tm_H m = nat (max 1 (Math_round (dbl (real imgH * dbl (real (tm_W m) / real imgW)))))
       \<and> 1 \<le> tm_H m
       \<and> length (tm_thickness m) = tm_W m * tm_H m"
proof -
  have w: "tm_W m = nat (max 10 \<lfloor>v\<rfloor>)"
    using assms(3,4) by (simp add: ctm_docs_sel getParams_widthPx_docs_def)
  have "(10::int) \<le> max 10 \<lfloor>v\<rfloor>" by simp
  then have w10: "10 \<le> tm_W m" unfolding w by linarith
  have h: "tm_H m = nat (max 1 (Math_round (dbl (real imgH * dbl (real (tm_W m) / real imgW)))))"
    using assms(4) by (simp add: ctm_docs_sel scaledHeight_def)
  have "(1::int) \<le> max 1 (Math_round (dbl (real imgH * dbl (real (tm_W m) / real imgW))))"
    by simp
  then have h1: "1 \<le> tm_H m" unfolding h by linarith
  have "length (tm_thickness m) = tm_W m * tm_H m"
    using assms(4) by (simp add: ctm_docs_sel pixelLoops_length)
  with w w10 h h1 show ?thesis by blast
qed

lemma scaledHeight_thin: "scaledHeight 1000 1 10 = 0"
proof -
  have a: "0 \<le> dbl (10 / 1000)" "dbl (10 / 1000) \<le> 1 / 4"
    using dbl_nonneg[of "10 / 1000"] dbl_mono[of "10 / 1000" "1 / 4"] by (simp_all add: dbl_quarter)
  then have "0 \<le> dbl (1 * dbl (10 / 1000))" "dbl (1 * dbl (10 / 1000)) \<le> 1 / 4"
    using dbl_nonneg[of "1 * dbl (10 / 1000)"] dbl_mono[of "1 * dbl (10 / 1000)" "1 / 4"]
    by (simp_all add: dbl_quarter)
  then have "\<lfloor>dbl (1 * dbl (10 / 1000)) + 1 / 2\<rfloor> = 0"
    by (intro floor_unique) simp_all
  then show ?thesis
    by (simp add: scaledHeight_def Math_round_def)
qed

lemma scaledHeight_thin_Suc: "scaledHeight 1000 (Suc 0) 10 = 0"
  using scaledHeight_thin by simp

text \<open>
  The row count is taken from the double product, not from the exact one: for an image of
  308 by 77 pixels at width 10 the exact product is the tie \<open>2.5\<close>, the double product is
  \<open>2.4999999999999996\<close> and \<^verbatim>\<open>Math.round\<close> gives 2; for 980 by 49 the exact product is
  \<open>0.5\<close>, the double product is \<open>0.49999999999999994\<close> and \<^verbatim>\<open>Math.round\<close> gives 0.
\<close>

lemma scaledHeight_ties: "scaledHeight 308 77 10 = 2" "scaledHeight 980 49 10 = 0"
proof -
  have a: "dbl (real 10 / real 308) = 2339532273958699 / 72057594037927936"
    unfolding dbl_def
    by (subst rnd_eval [where e = "-5"]) (simp_all add: roundEven_def Let_def powr_neg_numeral)
  have b: "dbl (real 77 * (2339532273958699 / 72057594037927936))
           = 5629499534213119 / 2251799813685248"
    unfolding dbl_def
    by (subst rnd_eval [where e = "1"]) (simp_all add: roundEven_def Let_def powr_neg_numeral)
  show "scaledHeight 308 77 10 = 2"
    unfolding scaledHeight_def a b Math_round_def by simp
  have c: "dbl (real 10 / real 980) = 5882252574524729 / 576460752303423488"
    unfolding dbl_def
    by (subst rnd_eval [where e = "-7"]) (simp_all add: roundEven_def Let_def powr_neg_numeral)
  have d: "dbl (real 49 * (5882252574524729 / 576460752303423488))
           = 9007199254740991 / 18014398509481984"
    unfolding dbl_def
    by (subst rnd_eval [where e = "-2"]) (simp_all add: roundEven_def Let_def powr_neg_numeral)
  show "scaledHeight 980 49 10 = 0"
    unfolding scaledHeight_def c d Math_round_def by simp
qed

text \<open>
  Claim C8, at an input where \<^verbatim>\<open>src/unnamed/part_000\<close> leaves it: for an image of
  1000 by 1 pixels and a requested width of 10, \<^verbatim>\<open>getParams\<close> gives \<open>W = 10\<close> and
  \<^verbatim>\<open>computeThicknessMap\<close> gives \<open>H = Math.round(0.01) = 0\<close> and an empty field, where the
  claim has \<open>H = 1\<close>; \<^verbatim>\<open>src/docs/app.js\<close> has \<^verbatim>\<open>Math.max(1, ...)\<close> and gives \<open>H = 1\<close>
  (lemma \<open>dims_docs\<close> is the claim for that variant).
\<close>

theorem dims_p0_zero_height:
  "tm_W (computeThicknessMap_p0 draw 1000 1 (p\<lparr>widthPx := getParams_widthPx_p0 (Some 10)\<rparr>)) = 10
   \<and> tm_H (computeThicknessMap_p0 draw 1000 1 (p\<lparr>widthPx := getParams_widthPx_p0 (Some 10)\<rparr>)) = 0
   \<and> tm_thickness (computeThicknessMap_p0 draw 1000 1 (p\<lparr>widthPx := getParams_widthPx_p0 (Some 10)\<rparr>)) = []
   \<and> max 1 (Math_round (real 1 * real 10 / real 1000)) = 1
   \<and> tm_H (computeThicknessMap_docs draw 1000 1 (p\<lparr>widthPx := getParams_widthPx_docs 10\<rparr>)) = 1"
  by (simp add: ctm_p0_sel ctm_docs_sel pixelLoops_def getParams_widthPx_p0_def
      getParams_widthPx_docs_def Math_round_def scaledHeight_thin_Suc)

text \<open>
  Claim C5, as the code has it. For every \<open>blackCut\<close> and \<open>whiteCut\<close>, also with
  \<open>whiteCut \<le> blackCut\<close>, the clip-and-renormalize step computes the clamp to \<open>[0, 1]\<close> of
  the double product \<^verbatim>\<open>(Y - blackCut) * invRange\<close>, where \<^verbatim>\<open>invRange\<close> is the double
  \<^verbatim>\<open>1 / Math.max(1e-9, whiteCut - blackCut)\<close>: the claimed quotient with the division
  replaced by a multiplication with the rounded reciprocal, which is the same number in exact
  arithmetic. The divisor is at least \<open>1e-9\<close>, so it is never zero, and the result lies in
  \<open>[0, 1]\<close>.
\<close>

theorem clip_normalize_guarded:
  "clipNormalize p Y = max 0 (min 1 (dbl (dbl (Y - blackCut p) * invRange p)))
   \<and> invRange p = dbl (1 / cutRange p)
   \<and> cutRange p = max (dbl (1 / 10 ^ 9)) (dbl (whiteCut p - blackCut p))
   \<and> (Y - blackCut p) * (1 / cutRange p) = (Y - blackCut p) / cutRange p
   \<and> 1 / 10 ^ 9 \<le> cutRange p
   \<and> cutRange p \<noteq> 0
   \<and> 0 \<le> clipNormalize p Y \<and> clipNormalize p Y \<le> 1"
proof -
  have "1 / 10 ^ 9 \<le> dbl (1 / 10 ^ 9)"
    by (rule dbl_literal_1e_9_bounds)
  then have g: "1 / 10 ^ 9 \<le> cutRange p"
    unfolding cutRange_def by (rule max.coboundedI1)
  have "(0::real) < 1 / 10 ^ 9" by simp
  then have "0 < cutRange p" using g by (rule less_le_trans)
  then have n: "cutRange p \<noteq> 0" by simp
  show ?thesis
    using g n clipNormalize_unit[of p Y]
    by (simp add: clipNormalize_def invRange_def cutRange_def)
qed

lemma clip_example_range:
  "dbl (double_0_98 - double_0_02) = 1080863910568919 / 1125899906842624"
  unfolding dbl_def double_0_98_def double_0_02_def
  by (subst rnd_eval [where e = "-1"]) (simp_all add: roundEven_def Let_def powr_neg_numeral)

lemma clip_example_reciprocal:
  "dbl (1 / (1080863910568919 / 1125899906842624)) = 4691249611844267 / 4503599627370496"
  unfolding dbl_def
  by (subst rnd_eval [where e = "0"]) (simp_all add: roundEven_def Let_def powr_neg_numeral)

lemma clip_example_difference:
  "dbl (grey51 - double_0_02) = 3777191798106577 / 288230376151711744"
  unfolding dbl_def grey51_def double_0_02_def
  by (subst rnd_eval [where e = "-7"]) (simp_all add: roundEven_def Let_def powr_neg_numeral)

lemma clip_example_product:
  "dbl (3777191798106577 / 288230376151711744 * (4691249611844267 / 4503599627370496))
   = 7869149579388703 / 576460752303423488"
  unfolding dbl_def
  by (subst rnd_eval [where e = "-7"]) (simp_all add: roundEven_def Let_def powr_neg_numeral)

lemma clip_example_quotient:
  "dbl (3777191798106577 / 288230376151711744 / (1080863910568919 / 1125899906842624))
   = 3934574789694351 / 288230376151711744"
  unfolding dbl_def
  by (subst rnd_eval [where e = "-7"]) (simp_all add: roundEven_def Let_def powr_neg_numeral)

lemma clip_example_divisor:
  "max (dbl (1 / 10 ^ 9)) (dbl (double_0_98 - double_0_02)) = 1080863910568919 / 1125899906842624"
  unfolding dbl_literal_1e_9 clip_example_range by simp

text \<open>
  Claim C5 as stated fails in the last bit: with \<open>blackCut = 0.02\<close>, \<open>whiteCut = 0.98\<close>
  and the luminance \<open>0.033104766570885055\<close> of the grey \<open>(51, 51, 51)\<close> the code gives
  \<open>7869149579388703 / 2 ^ 59 = 0.0136507985113386\<close>, the quotient in doubles is
  \<open>3934574789694351 / 2 ^ 58 = 0.013650798511338599\<close>, and the quotient of the reals is a
  third number.
\<close>

theorem clip_normalize_not_quotient:
  "clipNormalize (exampleParams\<lparr>blackCut := double_0_02, whiteCut := double_0_98\<rparr>) grey51
     = 7869149579388703 / 576460752303423488
   \<and> spec_clip_dbl grey51 double_0_02 double_0_98 = 3934574789694351 / 288230376151711744
   \<and> spec_clip grey51 double_0_02 double_0_98 = 3777191798106577 / 276701161105643269
   \<and> clipNormalize (exampleParams\<lparr>blackCut := double_0_02, whiteCut := double_0_98\<rparr>) grey51
     \<noteq> spec_clip_dbl grey51 double_0_02 double_0_98
   \<and> clipNormalize (exampleParams\<lparr>blackCut := double_0_02, whiteCut := double_0_98\<rparr>) grey51
     \<noteq> spec_clip grey51 double_0_02 double_0_98"
proof -
  have s: "blackCut (exampleParams\<lparr>blackCut := double_0_02, whiteCut := double_0_98\<rparr>)
             = double_0_02"
    "whiteCut (exampleParams\<lparr>blackCut := double_0_02, whiteCut := double_0_98\<rparr>) = double_0_98"
    by simp_all
  have a: "clipNormalize (exampleParams\<lparr>blackCut := double_0_02, whiteCut := double_0_98\<rparr>) grey51
           = 7869149579388703 / 576460752303423488"
    unfolding clipNormalize_def invRange_def cutRange_def s clip_example_divisor
      clip_example_reciprocal clip_example_difference clip_example_product
    by simp
  have b: "spec_clip_dbl grey51 double_0_02 double_0_98 = 3934574789694351 / 288230376151711744"
    unfolding spec_clip_dbl_def clip_example_divisor clip_example_difference
      clip_example_quotient
    by simp
  have c: "spec_clip grey51 double_0_02 double_0_98 = 3777191798106577 / 276701161105643269"
    by (simp add: spec_clip_def grey51_def double_0_02_def double_0_98_def)
  show ?thesis
    unfolding a b c by simp
qed

section \<open>Examples for the thickness field builder\<close>

lemma example_doubles:
  "dbl (3 / 4) = 3 / 4" "dbl (3 / 2) = 3 / 2" "dbl (3 / 4 + 3 / 2) = 9 / 4"
  "dbl double_0_7 = double_0_7"
  "dbl (double_0_7 + 3 / 2) = 2476979795053773 / 1125899906842624"
proof -
  show "dbl (3 / 4) = 3 / 4"
    unfolding dbl_def
    by (subst rnd_eval [where e = "-1"]) (simp_all add: roundEven_def Let_def powr_neg_numeral)
  show "dbl (3 / 2) = 3 / 2"
    unfolding dbl_def
    by (subst rnd_eval [where e = "0"]) (simp_all add: roundEven_def Let_def powr_neg_numeral)
  show "dbl (3 / 4 + 3 / 2) = 9 / 4"
    unfolding dbl_def
    by (subst rnd_eval [where e = "1"]) (simp_all add: roundEven_def Let_def powr_neg_numeral)
  show "dbl double_0_7 = double_0_7"
    unfolding dbl_def double_0_7_def
    by (subst rnd_eval [where e = "-1"]) (simp_all add: roundEven_def Let_def powr_neg_numeral)
  show "dbl (double_0_7 + 3 / 2) = 2476979795053773 / 1125899906842624"
    unfolding dbl_def double_0_7_def
    by (subst rnd_eval [where e = "1"]) (simp_all add: roundEven_def Let_def powr_neg_numeral)
qed

lemma example_singles:
  "fround (3 / 4) = 3 / 4" "fround (9 / 4) = 9 / 4"
  "fround double_0_7 = 11744051 / 16777216"
  "fround (2476979795053773 / 1125899906842624) = 9227469 / 4194304"
proof -
  show "fround (3 / 4) = 3 / 4"
    unfolding fround_def
    by (subst rnd_eval [where e = "-1"]) (simp_all add: roundEven_def Let_def powr_neg_numeral)
  show "fround (9 / 4) = 9 / 4"
    unfolding fround_def
    by (subst rnd_eval [where e = "1"]) (simp_all add: roundEven_def Let_def powr_neg_numeral)
  show "fround double_0_7 = 11744051 / 16777216"
    unfolding fround_def double_0_7_def
    by (subst rnd_eval [where e = "-1"]) (simp_all add: roundEven_def Let_def powr_neg_numeral)
  show "fround (2476979795053773 / 1125899906842624) = 9227469 / 4194304"
    unfolding fround_def
    by (subst rnd_eval [where e = "1"]) (simp_all add: roundEven_def Let_def powr_neg_numeral)
qed

lemma scaledHeight_example: "scaledHeight 20 10 10 = 5"
proof -
  have "dbl (real 10 * dbl (real 10 / real 20)) = 5"
    by (simp add: dbl_half dbl_five)
  then show ?thesis
    unfolding scaledHeight_def Math_round_def by simp
qed

lemma example_dims:
  "tm_W (computeThicknessMap_docs draw 20 10 (exampleParams\<lparr>baseMm := b\<rparr>)) = 10"
  "tm_H (computeThicknessMap_docs draw 20 10 (exampleParams\<lparr>baseMm := b\<rparr>)) = 5"
  "tm_W (computeThicknessMap_p0 draw 20 10 (exampleParams\<lparr>baseMm := b\<rparr>)) = 10"
  "tm_H (computeThicknessMap_p0 draw 20 10 (exampleParams\<lparr>baseMm := b\<rparr>)) = 5"
  "tm_W (computeThicknessMap_docs draw 20 10 exampleParams) = 10"
  "tm_H (computeThicknessMap_docs draw 20 10 exampleParams) = 5"
  "tm_W (computeThicknessMap_p0 draw 20 10 exampleParams) = 10"
  "tm_H (computeThicknessMap_p0 draw 20 10 exampleParams) = 5"
  by (simp_all add: ctm_docs_sel ctm_p0_sel exampleParams_def scaledHeight_example)

lemma solidImage_length: "length (solidImage c a W H) = 4 * W * H"
  by (simp add: solidImage_def)

lemma solidImage_rgb:
  assumes "k < W * H"
  shows "rgbOf (solidImage c a W H) k = (c, c, c)"
proof -
  have l: "4 * k < 4 * W * H" "4 * k + 1 < 4 * W * H" "4 * k + 2 < 4 * W * H"
    using assms by simp_all
  have m: "(4 * k) mod 4 \<noteq> 3" "(4 * k + 1) mod 4 \<noteq> 3" "(4 * k + 2) mod 4 \<noteq> 3"
    by presburger+
  show ?thesis
    unfolding rgbOf_def solidImage_def using l m by (simp only: nth_map length_upt diff_zero nth_upt add_0 if_False)
qed

lemma solidImage_uniform: "uniformPixels (solidImage c a W H) (W * H) c"
  by (simp add: uniformPixels_def list_all_iff solidImage_rgb)


lemma example_settings:
  "mapInvert (exampleParams\<lparr>baseMm := b\<rparr>) = Some True"
  "blackCut (exampleParams\<lparr>baseMm := b\<rparr>) = 0"
  "whiteCut (exampleParams\<lparr>baseMm := b\<rparr>) = 1"
  "toneGamma (exampleParams\<lparr>baseMm := b\<rparr>) = 1"
  "baseMm (exampleParams\<lparr>baseMm := b\<rparr>) = b"
  "reliefMm (exampleParams\<lparr>baseMm := b\<rparr>) = 3 / 2"
  "widthPx (exampleParams\<lparr>baseMm := b\<rparr>) = 10"
  by (simp_all add: exampleParams_def)

lemma example_fields_0_7:
  "tm_thickness (computeThicknessMap_docs (solidImage 255 255) 20 10
      (exampleParams\<lparr>baseMm := double_0_7\<rparr>)) = replicate 50 (11744051 / 16777216)"
  "tm_thickness (computeThicknessMap_p0 (solidImage 255 255) 20 10
      (exampleParams\<lparr>baseMm := double_0_7\<rparr>)) = replicate 50 (11744051 / 16777216)"
  "tm_thickness (computeThicknessMap_docs (solidImage 0 255) 20 10
      (exampleParams\<lparr>baseMm := double_0_7\<rparr>)) = replicate 50 (9227469 / 4194304)"
  "tm_thickness (computeThicknessMap_p0 (solidImage 0 255) 20 10
      (exampleParams\<lparr>baseMm := double_0_7\<rparr>)) = replicate 50 (9227469 / 4194304)"
proof -
  let ?q = "exampleParams\<lparr>baseMm := double_0_7\<rparr>"
  have d: "dbl (baseMm ?q) = baseMm ?q" "dbl (reliefMm ?q) = reliefMm ?q"
    unfolding example_settings by (rule example_doubles)+
  note L = monochrome_loops[OF example_settings(1-4) d, where W = 10 and H = 5]
  have n: "(10::nat) * 5 = 50" by simp
  have w: "pixelLoops px ?q (solidImage 255 255 10 5) 10 5 = replicate 50 (11744051 / 16777216)"
    if "px = pixelThickness_docs \<or> px = pixelThickness_p0" for px
    using L(1)[OF that solidImage_uniform[of 255 255 10 5]]
    unfolding example_settings example_singles n .
  have b: "pixelLoops px ?q (solidImage 0 255 10 5) 10 5 = replicate 50 (9227469 / 4194304)"
    if "px = pixelThickness_docs \<or> px = pixelThickness_p0" for px
    using L(2)[OF that solidImage_uniform[of 0 255 10 5]]
    unfolding example_settings example_doubles example_singles n .
  have h: "nat (max 1 (scaledHeight 20 10 10)) = 5" "nat (scaledHeight 20 10 10) = 5"
    by (simp_all add: scaledHeight_example)
  show "tm_thickness (computeThicknessMap_docs (solidImage 255 255) 20 10 ?q)
        = replicate 50 (11744051 / 16777216)"
    unfolding ctm_docs_sel example_settings h by (rule w) simp
  show "tm_thickness (computeThicknessMap_p0 (solidImage 255 255) 20 10 ?q)
        = replicate 50 (11744051 / 16777216)"
    unfolding ctm_p0_sel example_settings h by (rule w) simp
  show "tm_thickness (computeThicknessMap_docs (solidImage 0 255) 20 10 ?q)
        = replicate 50 (9227469 / 4194304)"
    unfolding ctm_docs_sel example_settings h by (rule b) simp
  show "tm_thickness (computeThicknessMap_p0 (solidImage 0 255) 20 10 ?q)
        = replicate 50 (9227469 / 4194304)"
    unfolding ctm_p0_sel example_settings h by (rule b) simp
qed

lemma example_valid:
  "0 \<le> baseMm exampleParams" "0 \<le> reliefMm exampleParams"
  "1 / 2 ^ 1022 \<le> toneGamma exampleParams" "blackCut exampleParams < whiteCut exampleParams"
  "dbl (baseMm exampleParams) = baseMm exampleParams"
  "dbl (reliefMm exampleParams) = reliefMm exampleParams"
proof -
  have "(1::real) \<le> 2 ^ 1022" by (rule one_le_power) simp
  then show "1 / 2 ^ 1022 \<le> toneGamma exampleParams"
    by (simp add: exampleParams_def)
qed (simp_all add: exampleParams_def example_doubles)


text \<open>
  Claim C1, with the rounding of the store, on a white opaque image of 20 by 10 pixels,
  resampled to 10 by 5, with \<open>baseMm = 0.75\<close> and \<open>reliefMm = 1.5\<close>.
\<close>

theorem thickness_in_range_witness:
  "list_all (\<lambda>t. 3 / 4 \<le> t \<and> t \<le> 9 / 4)
     (tm_thickness (computeThicknessMap_docs (solidImage 255 255) 20 10 exampleParams))
   \<and> list_all (\<lambda>t. 3 / 4 \<le> t \<and> t \<le> 9 / 4)
     (tm_thickness (computeThicknessMap_p0 (solidImage 255 255) 20 10 exampleParams))"
proof -
  have b: "baseMm exampleParams = 3 / 4" "reliefMm exampleParams = 3 / 2"
    by (simp_all add: exampleParams_def)
  show ?thesis
    using thickness_in_range[OF example_valid solidImage_length[of 255 255],
        where imgW = 20 and imgH = 10]
    unfolding list_all_iff b example_doubles example_singles by blast
qed

text \<open>
  Claim C1 as stated fails where \<open>baseMm\<close> is not a single-precision number: with
  \<open>baseMm = 0.7\<close> the white image gives the value \<open>11744051 / 2 ^ 24 = 0.699999988079071\<close>
  in each of the 50 cells, which is below \<open>baseMm\<close>.
\<close>

theorem thickness_below_base:
  "length (tm_thickness (computeThicknessMap_docs (solidImage 255 255) 20 10
      (exampleParams\<lparr>baseMm := double_0_7\<rparr>))) = 50
   \<and> list_all (\<lambda>t. t = 11744051 / 16777216 \<and> t < baseMm (exampleParams\<lparr>baseMm := double_0_7\<rparr>))
       (tm_thickness (computeThicknessMap_docs (solidImage 255 255) 20 10
          (exampleParams\<lparr>baseMm := double_0_7\<rparr>)))
   \<and> length (tm_thickness (computeThicknessMap_p0 (solidImage 255 255) 20 10
      (exampleParams\<lparr>baseMm := double_0_7\<rparr>))) = 50
   \<and> list_all (\<lambda>t. t = 11744051 / 16777216 \<and> t < baseMm (exampleParams\<lparr>baseMm := double_0_7\<rparr>))
       (tm_thickness (computeThicknessMap_p0 (solidImage 255 255) 20 10
          (exampleParams\<lparr>baseMm := double_0_7\<rparr>)))
   \<and> 0 \<le> baseMm (exampleParams\<lparr>baseMm := double_0_7\<rparr>)
   \<and> 0 \<le> reliefMm (exampleParams\<lparr>baseMm := double_0_7\<rparr>)
   \<and> 0 < toneGamma (exampleParams\<lparr>baseMm := double_0_7\<rparr>)
   \<and> blackCut (exampleParams\<lparr>baseMm := double_0_7\<rparr>)
       < whiteCut (exampleParams\<lparr>baseMm := double_0_7\<rparr>)"
  unfolding example_fields_0_7 example_settings by (simp add: double_0_7_def list_all_iff)

text \<open>
  Claim C7, with the rounding of the store, on a white and on a black image of 20 by 10
  pixels, with \<open>baseMm = 0.75\<close> and \<open>reliefMm = 1.5\<close>.
\<close>

theorem monochrome_fields_witness:
  "tm_thickness (computeThicknessMap_docs (solidImage 255 255) 20 10 exampleParams)
     = replicate 50 (3 / 4)
   \<and> tm_thickness (computeThicknessMap_docs (solidImage 0 255) 20 10 exampleParams)
     = replicate 50 (9 / 4)
   \<and> tm_thickness (computeThicknessMap_p0 (solidImage 255 255) 20 10 exampleParams)
     = replicate 50 (3 / 4)
   \<and> tm_thickness (computeThicknessMap_p0 (solidImage 0 255) 20 10 exampleParams)
     = replicate 50 (9 / 4)"
proof -
  have h: "mapInvert exampleParams = Some True" "blackCut exampleParams = 0"
    "whiteCut exampleParams = 1" "toneGamma exampleParams = 1"
    by (simp_all add: exampleParams_def)
  have b: "baseMm exampleParams = 3 / 4" "reliefMm exampleParams = 3 / 2"
    by (simp_all add: exampleParams_def)
  have d: "computeThicknessMap_docs \<in> {computeThicknessMap_docs, computeThicknessMap_p0}"
    and e: "computeThicknessMap_p0 \<in> {computeThicknessMap_docs, computeThicknessMap_p0}"
    by simp_all
  have n: "(10::nat) * 5 = 50" by simp
  note v = example_valid(5,6)
  show ?thesis
    using monochrome_fields[OF h v d refl, where draw = "solidImage 255 255" and imgW = 20 and imgH = 10]
      monochrome_fields[OF h v d refl, where draw = "solidImage 0 255" and imgW = 20 and imgH = 10]
      monochrome_fields[OF h v e refl, where draw = "solidImage 255 255" and imgW = 20 and imgH = 10]
      monochrome_fields[OF h v e refl, where draw = "solidImage 0 255" and imgW = 20 and imgH = 10]
      solidImage_uniform[of 255 255 10 5] solidImage_uniform[of 0 255 10 5]
    unfolding example_dims b n example_doubles example_singles by blast
qed

text \<open>
  Claim C7 as stated fails with \<open>baseMm = 0.7\<close> and \<open>reliefMm = 1.5\<close>: the white image
  gives \<open>11744051 / 2 ^ 24 = 0.699999988079071\<close> everywhere, not \<open>baseMm\<close>, and the black
  image gives \<open>9227469 / 2 ^ 22 = 2.200000047683716\<close> everywhere, not \<open>baseMm + reliefMm\<close>.
\<close>

theorem monochrome_fields_rounded:
  "tm_thickness (computeThicknessMap_docs (solidImage 255 255) 20 10
      (exampleParams\<lparr>baseMm := double_0_7\<rparr>)) = replicate 50 (11744051 / 16777216)
   \<and> tm_thickness (computeThicknessMap_docs (solidImage 255 255) 20 10
      (exampleParams\<lparr>baseMm := double_0_7\<rparr>))
     \<noteq> replicate 50 (baseMm (exampleParams\<lparr>baseMm := double_0_7\<rparr>))
   \<and> tm_thickness (computeThicknessMap_docs (solidImage 0 255) 20 10
      (exampleParams\<lparr>baseMm := double_0_7\<rparr>)) = replicate 50 (9227469 / 4194304)
   \<and> tm_thickness (computeThicknessMap_docs (solidImage 0 255) 20 10
      (exampleParams\<lparr>baseMm := double_0_7\<rparr>))
     \<noteq> replicate 50 (baseMm (exampleParams\<lparr>baseMm := double_0_7\<rparr>)
                      + reliefMm (exampleParams\<lparr>baseMm := double_0_7\<rparr>))
   \<and> tm_thickness (computeThicknessMap_p0 (solidImage 255 255) 20 10
      (exampleParams\<lparr>baseMm := double_0_7\<rparr>))
     \<noteq> replicate 50 (baseMm (exampleParams\<lparr>baseMm := double_0_7\<rparr>))
   \<and> uniformPixels (solidImage 255 255 10 5) (10 * 5) 255
   \<and> uniformPixels (solidImage 0 255 10 5) (10 * 5) 0"
  unfolding example_fields_0_7 example_settings
  using solidImage_uniform[of 255 255 10 5] solidImage_uniform[of 0 255 10 5]
  by (simp add: double_0_7_def)

text \<open>
  Claim C6 at the cell \<open>(2, 1)\<close> of the 10 by 5 field.
\<close>

theorem flip_reverses_index_witness:
  "fieldAt (computeThicknessMap_docs (solidImage 255 255) 20 10 (exampleParams\<lparr>flipX := True\<rparr>)) 2 1
     = fieldAt (computeThicknessMap_docs (solidImage 255 255) 20 10 (exampleParams\<lparr>flipX := False\<rparr>))
         (10 - 1 - 2) 1
   \<and> fieldAt (computeThicknessMap_docs (solidImage 255 255) 20 10 (exampleParams\<lparr>flipY := True\<rparr>)) 2 1
     = fieldAt (computeThicknessMap_docs (solidImage 255 255) 20 10 (exampleParams\<lparr>flipY := False\<rparr>))
         2 (5 - 1 - 1)
   \<and> length (tm_thickness (computeThicknessMap_p0 (solidImage 255 255) 20 10 exampleParams)) = 10 * 5"
proof -
  have d: "(computeThicknessMap_docs, pixelThickness_docs)
           \<in> {(computeThicknessMap_docs, pixelThickness_docs), (computeThicknessMap_p0, pixelThickness_p0)}"
    and e: "(computeThicknessMap_p0, pixelThickness_p0)
           \<in> {(computeThicknessMap_docs, pixelThickness_docs), (computeThicknessMap_p0, pixelThickness_p0)}"
    by simp_all
  have x: "(2::nat) < 10" "(1::nat) < 5" by simp_all
  show ?thesis
    using flip_reverses_index[OF d example_dims(5)[symmetric] example_dims(6)[symmetric] x,
        where draw = "solidImage 255 255"]
      flip_reverses_index[OF e example_dims(7)[symmetric] example_dims(8)[symmetric] x,
        where draw = "solidImage 255 255"]
    by blast
qed


section \<open>The serializer: writes, cursor and count\<close>

lemma uint32_roundtrip:
  fixes w :: "32 word"
  shows "(ucast (ucast w :: 8 word) :: 32 word)
         OR push_bit 8 (ucast (ucast (drop_bit 8 w) :: 8 word))
         OR push_bit 16 (ucast (ucast (drop_bit 16 w) :: 8 word))
         OR push_bit 24 (ucast (ucast (drop_bit 24 w) :: 8 word)) = w"
proof (rule bit_word_eqI)
  fix n assume n: "n < LENGTH(32)"
  have c: "n < 8 \<or> (8 \<le> n \<and> n < 16) \<or> (16 \<le> n \<and> n < 24) \<or> 24 \<le> n" by linarith
  then show "bit ((ucast (ucast w :: 8 word) :: 32 word)
         OR push_bit 8 (ucast (ucast (drop_bit 8 w) :: 8 word))
         OR push_bit 16 (ucast (ucast (drop_bit 16 w) :: 8 word))
         OR push_bit 24 (ucast (ucast (drop_bit 24 w) :: 8 word))) n = bit w n"
    using n by (auto simp add: bit_simps)
qed

lemma list_all_splice:
  assumes "list_all Q buf" "list_all Q bs"
  shows "list_all Q (take off buf @ bs @ drop n buf)"
  using assms by (auto simp: list_all_iff dest: in_set_takeD in_set_dropD)

lemma setBytes_ok:
  assumes "off + length bs \<le> length buf"
  shows "\<exists>buf'. setBytes buf off bs = Inr buf' \<and> length buf' = length buf
          \<and> (\<forall>k \<le> off. take k buf' = take k buf)
          \<and> (\<forall>i < length bs. buf' ! (off + i) = bs ! i)
          \<and> (list_all Q buf \<longrightarrow> list_all Q bs \<longrightarrow> list_all Q buf')"
proof -
  let ?b = "take off buf @ bs @ drop (off + length bs) buf"
  have 1: "setBytes buf off bs = Inr ?b"
    using assms by (simp add: setBytes_def)
  have 2: "length ?b = length buf"
    using assms by simp
  have 3: "\<forall>k \<le> off. take k ?b = take k buf"
    using assms by (simp add: min_def)
  have 4: "\<forall>i < length bs. ?b ! (off + i) = bs ! i"
    using assms by (simp add: nth_append)
  have 5: "list_all Q buf \<longrightarrow> list_all Q bs \<longrightarrow> list_all Q ?b"
    by (blast intro: list_all_splice)
  show ?thesis
    using 1 2 3 4 5 by blast
qed

lemma getUint32_setUint32:
  assumes "off + 4 \<le> length buf"
  shows "\<exists>buf'. setUint32 off n buf = Inr buf' \<and> length buf' = length buf
           \<and> (\<forall>k \<le> off. take k buf' = take k buf)
           \<and> getUint32 buf' off = Some (word_of_int n)
           \<and> (list_all Q buf \<longrightarrow> (\<forall>w. Q (Raw w)) \<longrightarrow> list_all Q buf')"
proof -
  have l: "off + length (uint32_le (word_of_int n)) \<le> length buf"
    using assms by (simp add: uint32_le_def)
  from setBytes_ok[OF l, of Q] obtain buf' where b: "setBytes buf off (uint32_le (word_of_int n)) = Inr buf'"
    "length buf' = length buf" "\<forall>k \<le> off. take k buf' = take k buf"
    "\<forall>i < length (uint32_le (word_of_int n)). buf' ! (off + i) = uint32_le (word_of_int n) ! i"
    "list_all Q buf \<longrightarrow> list_all Q (uint32_le (word_of_int n)) \<longrightarrow> list_all Q buf'"
    by blast
  have "buf' ! off = uint32_le (word_of_int n) ! 0" "buf' ! (off + 1) = uint32_le (word_of_int n) ! 1"
    "buf' ! (off + 2) = uint32_le (word_of_int n) ! 2" "buf' ! (off + 3) = uint32_le (word_of_int n) ! 3"
    using b(4)[rule_format, of 0] b(4)[rule_format, of 1] b(4)[rule_format, of 2] b(4)[rule_format, of 3]
    by (simp_all add: uint32_le_def)
  then have g: "getUint32 buf' off = Some (word_of_int n)"
    using assms b(2) by (simp add: getUint32_def uint32_le_def uint32_roundtrip)
  have q: "list_all Q buf \<longrightarrow> (\<forall>w. Q (Raw w)) \<longrightarrow> list_all Q buf'"
    using b(5) by (simp add: uint32_le_def)
  from b(1-3) g q show ?thesis by (auto simp: setUint32_def)
qed

lemma getUint32_take:
  assumes "take 84 b = take 84 b'" "84 \<le> length b" "84 \<le> length b'"
  shows "getUint32 b 80 = getUint32 b' 80"
proof -
  have "b ! i = b' ! i" if "i < 84" for i
    using assms(1) that by (metis nth_take)
  then have "b ! 80 = b' ! 80" "b ! (80 + 1) = b' ! (80 + 1)" "b ! (80 + 2) = b' ! (80 + 2)"
    "b ! (80 + 3) = b' ! (80 + 3)" by simp_all
  then show ?thesis using assms(2,3) by (simp add: getUint32_def)
qed

lemma keeps_setBytes:
  assumes "lo \<le> off" "off + length bs \<le> hi" "list_all Q bs"
  shows "keeps Q lo hi (\<lambda>buf. setBytes buf off bs)"
  unfolding keeps_def
proof (intro allI impI)
  fix buf :: "byte list" assume "hi \<le> length buf" and q: "list_all Q buf"
  then have "off + length bs \<le> length buf" using assms(2) by simp
  from setBytes_ok[OF this, of Q] assms(1,3) q
  show "\<exists>buf'. setBytes buf off bs = Inr buf' \<and> length buf' = length buf
          \<and> take lo buf' = take lo buf \<and> list_all Q buf'"
    by blast
qed

lemma keeps_setFloat32:
  "lo \<le> off \<Longrightarrow> off + 4 \<le> hi \<Longrightarrow> numOK Q v \<Longrightarrow> keeps Q lo hi (setFloat32 off v)"
  using keeps_setBytes[of lo off "float32_le v" hi Q]
  by (simp add: setFloat32_def[abs_def] float32_le_def numOK_def)

lemma keeps_setUint16:
  "lo \<le> off \<Longrightarrow> off + 2 \<le> hi \<Longrightarrow> (\<And>w. Q (Raw w)) \<Longrightarrow> keeps Q lo hi (setUint16 off n)"
  using keeps_setBytes[of lo off "uint16_le (word_of_int n)" hi Q]
  by (simp add: setUint16_def[abs_def] uint16_le_def)

lemma keeps_seqE:
  "list_all (keeps Q lo hi) fs \<Longrightarrow> keeps Q lo hi (seqE fs)"
proof (induction fs)
  case Nil
  then show ?case by (simp add: keeps_def)
next
  case (Cons f fs)
  then have f: "keeps Q lo hi f" and fs: "keeps Q lo hi (seqE fs)" by simp_all
  show ?case
    unfolding keeps_def
  proof (intro allI impI)
    fix buf :: "byte list" assume h: "hi \<le> length buf" and q: "list_all Q buf"
    from f h q obtain b1 where b1: "f buf = Inr b1" "length b1 = length buf"
      "take lo b1 = take lo buf" "list_all Q b1"
      unfolding keeps_def by blast
    from fs h b1(2,4) obtain b2 where b2: "seqE fs b1 = Inr b2" "length b2 = length b1"
      "take lo b2 = take lo b1" "list_all Q b2"
      unfolding keeps_def by (metis)
    show "\<exists>buf'. seqE (f # fs) buf = Inr buf' \<and> length buf' = length buf
            \<and> take lo buf' = take lo buf \<and> list_all Q buf'"
      using b1 b2 by (simp add: bindE_def)
  qed
qed

lemma emits_Nil: "emits Q cnt 0 (seqE [])"
  by (simp add: emits_def)

lemma emits_Cons:
  assumes "emits Q cnt n f" "emits Q cnt m (seqE fs)"
  shows "emits Q cnt (n + m) (seqE (f # fs))"
  unfolding emits_def
proof (intro allI impI)
  fix s :: "'a writer_scheme"
  assume o: "84 \<le> w_off s" and l: "w_off s + 50 * (n + m) \<le> length (w_buf s)"
    and q: "list_all Q (w_buf s)"
  have "w_off s + 50 * n \<le> length (w_buf s)"
    using l by (simp add: distrib_left)
  with assms(1) o q obtain s1 where s1: "f s = Inr s1" "w_off s1 = w_off s + 50 * n"
    "length (w_buf s1) = length (w_buf s)" "take 84 (w_buf s1) = take 84 (w_buf s)"
    "cnt s1 = cnt s + n" "list_all Q (w_buf s1)"
    unfolding emits_def by blast
  have "84 \<le> w_off s1" "w_off s1 + 50 * m \<le> length (w_buf s1)"
    using s1 o l by (simp_all add: distrib_left)
  with assms(2) s1(6) obtain s2 where s2: "seqE fs s1 = Inr s2" "w_off s2 = w_off s1 + 50 * m"
    "length (w_buf s2) = length (w_buf s1)" "take 84 (w_buf s2) = take 84 (w_buf s1)"
    "cnt s2 = cnt s1 + m" "list_all Q (w_buf s2)"
    unfolding emits_def by blast
  show "\<exists>s'. seqE (f # fs) s = Inr s' \<and> w_off s' = w_off s + 50 * (n + m)
          \<and> length (w_buf s') = length (w_buf s) \<and> take 84 (w_buf s') = take 84 (w_buf s)
          \<and> cnt s' = cnt s + (n + m) \<and> list_all Q (w_buf s')"
    using s1 s2 by (simp add: bindE_def distrib_left)
qed

lemma emits_map:
  assumes "\<And>i. i \<in> set js \<Longrightarrow> emits Q cnt n (body i)"
  shows "emits Q cnt (n * length js) (seqE (map body js))"
  using assms
proof (induction js)
  case Nil
  show ?case by (simp add: emits_def)
next
  case (Cons j js)
  have e: "n * length (j # js) = n + n * length js" by simp
  have 1: "emits Q cnt n (body j)" by (rule Cons.prems) simp
  have 2: "emits Q cnt (n * length js) (seqE (map body js))"
    by (rule Cons.IH) (simp add: Cons.prems)
  show ?case unfolding e list.map by (rule emits_Cons[OF 1 2])
qed

lemma emits_forE:
  assumes "\<And>i. 0 \<le> i \<Longrightarrow> i < k \<Longrightarrow> emits Q cnt n (body i)"
  shows "emits Q cnt (n * nat k) (forE k body)"
proof -
  have "emits Q cnt (n * length (loopRange k)) (seqE (map body (loopRange k)))"
    by (rule emits_map) (simp add: loopRange_def assms)
  then show ?thesis
    by (simp add: forE_def loopRange_def)
qed

lemma emits_two:
  assumes "emits Q cnt 1 f" "emits Q cnt 1 g"
  shows "emits Q cnt 2 (seqE [f, g])"
proof -
  have "emits Q cnt (1 + (1 + 0)) (seqE [f, g])"
    by (intro emits_Cons emits_Nil assms)
  then show ?thesis by (simp only: one_add_one add_0_right)
qed

lemma emits_four:
  assumes "emits Q cnt 1 f" "emits Q cnt 1 g" "emits Q cnt 1 h" "emits Q cnt 1 k"
  shows "emits Q cnt 4 (seqE [f, g, h, k])"
proof -
  have "emits Q cnt (1 + (1 + (1 + (1 + 0)))) (seqE [f, g, h, k])"
    by (intro emits_Cons emits_Nil assms)
  moreover have "1 + (1 + (1 + (1 + 0))) = (4::nat)" by simp
  ultimately show ?thesis by (simp only:)
qed

lemma writeTri_docs_emits:
  assumes R: "\<And>w. Q (Raw w)" and Z: "numOK Q (Num 0)"
    and V: "vertexOK Q a" "vertexOK Q b" "vertexOK Q c"
  shows "emits Q emittedCount 1 (writeTri_docs a b c)"
proof -
  obtain a1 a2 a3 b1 b2 b3 c1 c2 c3 where v: "a = (a1, a2, a3)" "b = (b1, b2, b3)" "c = (c1, c2, c3)"
    by (metis prod_cases3)
  have n: "numOK Q a1" "numOK Q a2" "numOK Q a3" "numOK Q b1" "numOK Q b2" "numOK Q b3"
    "numOK Q c1" "numOK Q c2" "numOK Q c3"
    using V unfolding v vertexOK_def by simp_all
  show ?thesis
    unfolding emits_def
  proof (intro allI impI)
    fix s :: writer
    assume o: "84 \<le> w_off s" and l: "w_off s + 50 * 1 \<le> length (w_buf s)"
      and q: "list_all Q (w_buf s)"
    let ?ws = "[setFloat32 (w_off s + 0) (Num 0), setFloat32 (w_off s + 4) (Num 0),
                setFloat32 (w_off s + 8) (Num 0), setFloat32 (w_off s + 12) a1,
                setFloat32 (w_off s + 16) a2, setFloat32 (w_off s + 20) a3,
                setFloat32 (w_off s + 24) b1, setFloat32 (w_off s + 28) b2,
                setFloat32 (w_off s + 32) b3, setFloat32 (w_off s + 36) c1,
                setFloat32 (w_off s + 40) c2, setFloat32 (w_off s + 44) c3,
                setUint16 (w_off s + 48) 0]"
    have "keeps Q 84 (w_off s + 50) (seqE ?ws)"
      by (rule keeps_seqE) (use o n Z R in \<open>simp add: keeps_setFloat32 keeps_setUint16\<close>)
    with l q obtain buf' where b: "seqE ?ws (w_buf s) = Inr buf'" "length buf' = length (w_buf s)"
      "take 84 buf' = take 84 (w_buf s)" "list_all Q buf'"
      unfolding keeps_def by auto
    from o obtain k where k: "w_off s = 84 + k"
      using le_Suc_ex by blast
    have c: "(w_off s + 50 - 84) div 50 = (w_off s - 84) div 50 + 1"
      unfolding k by simp
    have "writeTri_docs a b c s = Inr (s\<lparr>w_buf := buf', w_off := w_off s + 50\<rparr>)"
      unfolding writeTri_docs_def v prod.case b(1) bindE_def by simp
    then show "\<exists>s'. writeTri_docs a b c s = Inr s' \<and> w_off s' = w_off s + 50 * 1
          \<and> length (w_buf s') = length (w_buf s) \<and> take 84 (w_buf s') = take 84 (w_buf s)
          \<and> emittedCount s' = emittedCount s + 1 \<and> list_all Q (w_buf s')"
      using b(2,3,4) c by (simp add: emittedCount_def)
  qed
qed

lemma writeTri_p0_emits:
  assumes V: "vertexOK Q a" "vertexOK Q b" "vertexOK Q c"
  shows "emits Q w_count 1 (writeTri_p0 a b c)"
proof -
  obtain a1 a2 a3 b1 b2 b3 c1 c2 c3 where v: "a = (a1, a2, a3)" "b = (b1, b2, b3)" "c = (c1, c2, c3)"
    by (metis prod_cases3)
  have n: "numOK Q a1" "numOK Q a2" "numOK Q a3" "numOK Q b1" "numOK Q b2" "numOK Q b3"
    "numOK Q c1" "numOK Q c2" "numOK Q c3"
    using V unfolding v vertexOK_def by simp_all
  show ?thesis
    unfolding emits_def
  proof (intro allI impI)
    fix s :: writer_p0
    assume o: "84 \<le> w_off s" and l: "w_off s + 50 * 1 \<le> length (w_buf s)"
      and q: "list_all Q (w_buf s)"
    let ?ws = "[setFloat32 (w_off s + 12) a1, setFloat32 (w_off s + 12 + 4) a2,
                setFloat32 (w_off s + 12 + 8) a3, setFloat32 (w_off s + 12 + 12) b1,
                setFloat32 (w_off s + 12 + 16) b2, setFloat32 (w_off s + 12 + 20) b3,
                setFloat32 (w_off s + 12 + 24) c1, setFloat32 (w_off s + 12 + 28) c2,
                setFloat32 (w_off s + 12 + 32) c3]"
    have "keeps Q 84 (w_off s + 50) (seqE ?ws)"
      by (rule keeps_seqE) (use o n in \<open>simp add: keeps_setFloat32\<close>)
    with l q obtain buf' where b: "seqE ?ws (w_buf s) = Inr buf'" "length buf' = length (w_buf s)"
      "take 84 buf' = take 84 (w_buf s)" "list_all Q buf'"
      unfolding keeps_def by auto
    have "writeTri_p0 a b c s
          = Inr (s\<lparr>w_buf := buf', w_off := w_off s + 12 + 38, w_count := w_count s + 1\<rparr>)"
      unfolding writeTri_p0_def v prod.case Let_def b(1) bindE_def by simp
    then show "\<exists>s'. writeTri_p0 a b c s = Inr s' \<and> w_off s' = w_off s + 50 * 1
          \<and> length (w_buf s') = length (w_buf s) \<and> take 84 (w_buf s') = take 84 (w_buf s)
          \<and> w_count s' = w_count s + 1 \<and> list_all Q (w_buf s')"
      using b(2,3,4) by simp
  qed
qed

lemma vertexOK_I: "numOK Q x \<Longrightarrow> numOK Q y \<Longrightarrow> numOK Q z \<Longrightarrow> vertexOK Q (x, y, z)"
  by (simp add: vertexOK_def)

lemma numOK_coordinates:
  assumes "\<And>r. numOK Q (Num r)"
  shows "numOK Q (vx_docs px W x)" "numOK Q (vy_docs px y)"
    "numOK Q (vx_p0 px x)" "numOK Q (vy_p0 px H y)"
  by (simp_all add: vx_docs_def vy_docs_def vx_p0_def vy_p0_def assms)

lemma phases_docs:
  assumes "1 \<le> W" "1 \<le> H"
    and R: "\<And>w. Q (Raw w)" and N: "\<And>r. numOK Q (Num r)"
    and Z: "\<And>x y. 0 \<le> x \<Longrightarrow> x < W \<Longrightarrow> 0 \<le> y \<Longrightarrow> y < H \<Longrightarrow> numOK Q (vzTop th W x y)"
  shows "emits Q emittedCount (2 * nat (W - 1) * nat (H - 1)) (topSurface_docs th px W H)"
    "emits Q emittedCount (2 * nat (W - 1) * nat (H - 1)) (bottomSurface_docs px W H)"
    "emits Q emittedCount (2 * nat (W - 1)) (wallTop_docs th px W H)"
    "emits Q emittedCount (2 * nat (W - 1)) (wallBottom_docs th px W H)"
    "emits Q emittedCount (2 * nat (H - 1)) (wallLeft_docs th px W H)"
    "emits Q emittedCount (2 * nat (H - 1)) (wallRight_docs th px W H)"
  unfolding topSurface_docs_def bottomSurface_docs_def wallTop_docs_def wallBottom_docs_def
    wallLeft_docs_def wallRight_docs_def Let_def
  by (intro emits_forE emits_two writeTri_docs_emits R N vertexOK_I numOK_coordinates Z;
      (insert assms(1,2), linarith))+

lemma phases_p0:
  assumes "1 \<le> W" "1 \<le> H"
    and N: "\<And>r. numOK Q (Num r)"
    and Z: "\<And>x y. 0 \<le> x \<Longrightarrow> x < W \<Longrightarrow> 0 \<le> y \<Longrightarrow> y < H \<Longrightarrow> numOK Q (vzTop th W x y)"
  shows "emits Q w_count (4 * nat (W - 1) * nat (H - 1)) (cells_p0 th px W H)"
    "emits Q w_count (4 * nat (W - 1)) (sidesX_p0 th px W H)"
    "emits Q w_count (4 * nat (H - 1)) (sidesY_p0 th px W H)"
  unfolding cells_p0_def sidesX_p0_def sidesY_p0_def
  by (intro emits_forE emits_four writeTri_p0_emits N vertexOK_I numOK_coordinates Z;
      (insert assms(1,2), linarith))+

lemma triCount_docs_spec: "triCount_docs W H = spec_triangles W H"
  by (simp add: triCount_docs_def spec_triangles_def Let_def algebra_simps)

lemma spec_triangles_alt: "spec_triangles W H = 4 * (W - 1) * (H - 1) + 4 * (W - 1) + 4 * (H - 1)"
  by (simp add: spec_triangles_def algebra_simps)

lemma spec_triangles_nat:
  assumes "1 \<le> W" "1 \<le> H"
  shows "spec_triangles W H
         = int (4 * nat (W - 1) * nat (H - 1) + 4 * nat (W - 1) + 4 * nat (H - 1))"
  using assms by (simp add: spec_triangles_alt)

lemma seq_docs_emits:
  assumes "1 \<le> W" "1 \<le> H"
    and R: "\<And>w. Q (Raw w)" and N: "\<And>r. numOK Q (Num r)"
    and Z: "\<And>x y. 0 \<le> x \<Longrightarrow> x < W \<Longrightarrow> 0 \<le> y \<Longrightarrow> y < H \<Longrightarrow> numOK Q (vzTop th W x y)"
  shows "emits Q emittedCount (4 * nat (W - 1) * nat (H - 1) + 4 * nat (W - 1) + 4 * nat (H - 1))
     (seqE [topSurface_docs th px W H, bottomSurface_docs px W H, wallTop_docs th px W H,
            wallBottom_docs th px W H, wallLeft_docs th px W H, wallRight_docs th px W H])"
proof -
  let ?a = "nat (W - 1)" and ?b = "nat (H - 1)"
  note P = phases_docs[OF assms(1,2) R N Z]
  have "emits Q emittedCount
          (2 * ?a * ?b + (2 * ?a * ?b + (2 * ?a + (2 * ?a + (2 * ?b + (2 * ?b + 0))))))
     (seqE [topSurface_docs th px W H, bottomSurface_docs px W H, wallTop_docs th px W H,
            wallBottom_docs th px W H, wallLeft_docs th px W H, wallRight_docs th px W H])"
    by (intro emits_Cons emits_Nil P)
  moreover have "2 * ?a * ?b + (2 * ?a * ?b + (2 * ?a + (2 * ?a + (2 * ?b + (2 * ?b + 0)))))
                 = 4 * ?a * ?b + 4 * ?a + 4 * ?b" by simp
  ultimately show ?thesis by (simp only:)
qed

lemma seq_p0_emits:
  assumes "1 \<le> W" "1 \<le> H"
    and N: "\<And>r. numOK Q (Num r)"
    and Z: "\<And>x y. 0 \<le> x \<Longrightarrow> x < W \<Longrightarrow> 0 \<le> y \<Longrightarrow> y < H \<Longrightarrow> numOK Q (vzTop th W x y)"
  shows "emits Q w_count (4 * nat (W - 1) * nat (H - 1) + 4 * nat (W - 1) + 4 * nat (H - 1))
     (seqE [cells_p0 th px W H, sidesX_p0 th px W H, sidesY_p0 th px W H])"
proof -
  let ?a = "nat (W - 1)" and ?b = "nat (H - 1)"
  note P = phases_p0[OF assms(1,2) N Z]
  have "emits Q w_count (4 * ?a * ?b + (4 * ?a + (4 * ?b + 0)))
     (seqE [cells_p0 th px W H, sidesX_p0 th px W H, sidesY_p0 th px W H])"
    by (intro emits_Cons emits_Nil P)
  moreover have "4 * ?a * ?b + (4 * ?a + (4 * ?b + 0)) = 4 * ?a * ?b + 4 * ?a + 4 * ?b" by simp
  ultimately show ?thesis by (simp only:)
qed

lemma ArrayBuffer_ok:
  assumes "n \<le> maxLen"
  shows "ArrayBuffer maxLen (int n) = Inr (replicate n (Raw 0))"
  using assms by (simp add: ArrayBuffer_def)

lemma ArrayBuffer_too_long: "int maxLen < n \<Longrightarrow> ArrayBuffer maxLen n = Inl RangeError"
  by (simp add: ArrayBuffer_def)

lemma stlWriter_docs_result:
  assumes "1 \<le> W" "1 \<le> H"
    and N: "N = 4 * nat (W - 1) * nat (H - 1) + 4 * nat (W - 1) + 4 * nat (H - 1)"
    and A: "84 + 50 * N \<le> maxLen"
    and R: "\<And>w. Q (Raw w)" and F: "\<And>r. numOK Q (Num r)"
    and Z: "\<And>x y. 0 \<le> x \<Longrightarrow> x < W \<Longrightarrow> 0 \<le> y \<Longrightarrow> y < H \<Longrightarrow> numOK Q (vzTop th W x y)"
  shows "\<exists>s. stlWriter_docs maxLen th px W H = Inr s \<and> w_off s = 84 + 50 * N
           \<and> length (w_buf s) = 84 + 50 * N \<and> emittedCount s = N
           \<and> getUint32 (w_buf s) 80 = Some (word_of_int (spec_triangles W H))
           \<and> list_all Q (w_buf s)"
proof -
  have t: "triCount_docs W H = int N"
    using spec_triangles_nat[OF assms(1,2)] N by (simp add: triCount_docs_spec)
  let ?b0 = "replicate (84 + 50 * N) (Raw 0)"
  have b0: "ArrayBuffer maxLen (84 + triCount_docs W H * 50) = Inr ?b0"
  proof -
    have "84 + triCount_docs W H * 50 = int (84 + 50 * N)" unfolding t by simp
    then show ?thesis using ArrayBuffer_ok[OF A] by (simp only:)
  qed
  have q0: "list_all Q ?b0" "list_all Q (replicate 80 (Raw 0))"
    by (simp_all add: list_all_iff R)
  have "0 + length (replicate 80 (Raw 0)) \<le> length ?b0" by simp
  from setBytes_ok[OF this, where Q = Q] q0 obtain b1 where
    b1: "setBytes ?b0 0 (replicate 80 (Raw 0)) = Inr b1" "length b1 = 84 + 50 * N" "list_all Q b1"
    by auto
  have "80 + 4 \<le> length b1" using b1(2) by simp
  from getUint32_setUint32[OF this, where n = "triCount_docs W H" and Q = Q] b1(3) R obtain b2 where
    b2: "setUint32 80 (triCount_docs W H) b1 = Inr b2" "length b2 = 84 + 50 * N"
      "getUint32 b2 80 = Some (word_of_int (triCount_docs W H))" "list_all Q b2"
    using b1(2) by auto
  let ?s0 = "\<lparr>w_buf = b2, w_off = 84\<rparr>"
  have "84 \<le> w_off ?s0" "w_off ?s0 + 50 * N \<le> length (w_buf ?s0)" "list_all Q (w_buf ?s0)"
    using b2(2,4) by simp_all
  with seq_docs_emits[OF assms(1,2) R F Z, where px = px, folded N] obtain s where
    s: "seqE [topSurface_docs th px W H, bottomSurface_docs px W H, wallTop_docs th px W H,
            wallBottom_docs th px W H, wallLeft_docs th px W H, wallRight_docs th px W H] ?s0 = Inr s"
      "w_off s = w_off ?s0 + 50 * N" "length (w_buf s) = length (w_buf ?s0)"
      "take 84 (w_buf s) = take 84 (w_buf ?s0)" "emittedCount s = emittedCount ?s0 + N"
      "list_all Q (w_buf s)"
    unfolding emits_def by blast
  have r: "stlWriter_docs maxLen th px W H = Inr s"
    unfolding stlWriter_docs_def Let_def b0 bindE_def sum.case b1(1) b2(1) s(1) ..
  have g: "getUint32 (w_buf s) 80 = getUint32 b2 80"
    by (rule getUint32_take) (use s(3,4) b2(2) in simp_all)
  show ?thesis
    using r s(2,3,5,6) g b2(2,3) by (simp add: emittedCount_def triCount_docs_spec)
qed

lemma count_le_cells:
  assumes "1 \<le> a" "1 \<le> b"
  shows "4 * a * b + 4 * a + 4 * b \<le> 12 * a * (b::nat)"
proof -
  define c where "c = a * b"
  have "a * 1 \<le> a * b" using assms(2) by (intro mult_le_mono2)
  then have ac: "a \<le> c" unfolding c_def by simp
  have "1 * b \<le> a * b" using assms(1) by (intro mult_le_mono1)
  then have bc: "b \<le> c" unfolding c_def by simp
  have "4 * a * b + 4 * a + 4 * b = 4 * c + 4 * a + 4 * b" "12 * a * b = 12 * c"
    unfolding c_def by simp_all
  then show ?thesis using ac bc by linarith
qed

lemma p0_buffer_fits:
  assumes "2 \<le> W" "2 \<le> H"
  shows "4 * nat (W - 1) * nat (H - 1) + 4 * nat (W - 1) + 4 * nat (H - 1)
         \<le> 12 * nat (W - 1) * nat (H - 1)"
  by (rule count_le_cells) (use assms in simp_all)

lemma buffer_size_nat: "84 + 50 * int a * int b * 12 = int (84 + 600 * a * b)"
  by simp

lemma p0_buffer_size:
  assumes "1 \<le> W" "1 \<le> H"
  shows "84 + 50 * (W - 1) * (H - 1) * 12 = int (84 + 600 * nat (W - 1) * nat (H - 1))"
proof -
  have w: "W - 1 = int (nat (W - 1))" and h: "H - 1 = int (nat (H - 1))"
    using assms by simp_all
  show ?thesis
    by (subst w, subst h) (rule buffer_size_nat)
qed

lemma stlWriter_p0_result:
  assumes "2 \<le> W" "2 \<le> H"
    and N: "N = 4 * nat (W - 1) * nat (H - 1) + 4 * nat (W - 1) + 4 * nat (H - 1)"
    and A: "84 + 600 * nat (W - 1) * nat (H - 1) \<le> maxLen"
    and R: "\<And>w. Q (Raw w)" and F: "\<And>r. numOK Q (Num r)"
    and Z: "\<And>x y. 0 \<le> x \<Longrightarrow> x < W \<Longrightarrow> 0 \<le> y \<Longrightarrow> y < H \<Longrightarrow> numOK Q (vzTop th W x y)"
  shows "\<exists>s. stlWriter_p0 maxLen th px W H = Inr s \<and> w_off s = 84 + 50 * N
           \<and> 84 + 50 * N \<le> length (w_buf s) \<and> w_count s = N
           \<and> getUint32 (w_buf s) 80 = Some (word_of_int (spec_triangles W H))
           \<and> list_all Q (w_buf s)"
proof -
  have d: "1 \<le> W" "1 \<le> H" using assms(1,2) by simp_all
  let ?L = "84 + 600 * nat (W - 1) * nat (H - 1)"
  have fit: "84 + 50 * N \<le> ?L" using p0_buffer_fits[OF assms(1,2)] unfolding N by simp
  have sp: "spec_triangles W H = int N"
    using spec_triangles_nat[OF d] N by simp
  let ?b0 = "replicate ?L (Raw 0)"
  have b0: "ArrayBuffer maxLen (84 + 50 * (W - 1) * (H - 1) * 12) = Inr ?b0"
    unfolding p0_buffer_size[OF d] by (rule ArrayBuffer_ok[OF A])
  have q0: "list_all Q ?b0"
    by (simp add: list_all_iff R)
  have "80 + 4 \<le> length ?b0" by simp
  from getUint32_setUint32[OF this, where n = 0 and Q = Q] q0 R obtain b1 where
    b1: "setUint32 80 0 ?b0 = Inr b1" "length b1 = ?L" "list_all Q b1" by auto
  let ?s0 = "\<lparr>w_buf = b1, w_off = 84, w_count = 0\<rparr>"
  have "84 \<le> w_off ?s0" "w_off ?s0 + 50 * N \<le> length (w_buf ?s0)" "list_all Q (w_buf ?s0)"
    using b1(2,3) fit by simp_all
  with seq_p0_emits[OF d F Z, where px = px, folded N] obtain s where
    s: "seqE [cells_p0 th px W H, sidesX_p0 th px W H, sidesY_p0 th px W H] ?s0 = Inr s"
      "w_off s = w_off ?s0 + 50 * N" "length (w_buf s) = length (w_buf ?s0)"
      "w_count s = w_count ?s0 + N" "list_all Q (w_buf s)"
    unfolding emits_def by blast
  have "80 + 4 \<le> length (w_buf s)" using s(3) b1(2) by simp
  from getUint32_setUint32[OF this, where n = "int (w_count s)" and Q = Q] s(5) R obtain b2 where
    b2: "setUint32 80 (int (w_count s)) (w_buf s) = Inr b2" "length b2 = length (w_buf s)"
      "getUint32 b2 80 = Some (word_of_int (int (w_count s)))" "list_all Q b2"
    by auto
  have r: "stlWriter_p0 maxLen th px W H = Inr (s\<lparr>w_buf := b2\<rparr>)"
    unfolding stlWriter_p0_def b0 bindE_def sum.case b1(1) s(1) b2(1) ..
  show ?thesis
    using r s(2,3,4) b2(2,3,4) b1(2) fit sp by simp
qed

lemma any_bytes: "anyByte b" "numOK anyByte v"
  by (simp_all add: anyByte_def numOK_def list_all_iff)

lemma number_bytes: "numberByte (Raw w)" "numOK numberByte (Num r)"
  by (simp_all add: numberByte_def numOK_def float32_le_def)

lemma field_index_bound:
  assumes "0 \<le> x" "x < W" "0 \<le> y" "y < H"
  shows "0 \<le> y * W + x \<and> y * W + x < W * (H::int)"
proof -
  have W: "0 \<le> W" using assms(1,2) by simp
  have "y * W + x < y * W + W" using assms(2) by simp
  also have "\<dots> = (y + 1) * W" by (simp add: algebra_simps)
  also have "\<dots> \<le> H * W" using assms(4) W by (intro mult_right_mono) simp_all
  finally have "y * W + x < W * H" by (simp add: mult.commute)
  moreover have "0 \<le> y * W" using assms(3) W by simp
  ultimately show ?thesis using assms(1) by simp
qed

lemma heights_in_field:
  assumes "int (length th) = W * H" "0 \<le> x" "x < W" "0 \<le> y" "y < H"
  shows "numOK numberByte (vzTop th W x y)"
  using field_index_bound[OF assms(2-5)] assms(1)
  by (simp add: vzTop_def Let_def number_bytes)

lemma buildBinarySTL_docs_kind:
  assumes "1 \<le> W" "1 \<le> H"
    and A: "84 + 50 * spec_triangles W H \<le> int maxLen"
    and R: "\<And>w. Q (Raw w)" and F: "\<And>r. numOK Q (Num r)"
    and Z: "\<And>x y. 0 \<le> x \<Longrightarrow> x < W \<Longrightarrow> 0 \<le> y \<Longrightarrow> y < H \<Longrightarrow> numOK Q (vzTop th W x y)"
  shows "\<exists>s. stlWriter_docs maxLen th px W H = Inr s
           \<and> buildBinarySTL_docs maxLen th px W H = Inr (w_buf s)
           \<and> int (emittedCount s) = spec_triangles W H
           \<and> int (w_off s) = 84 + 50 * spec_triangles W H
           \<and> int (length (w_buf s)) = 84 + 50 * spec_triangles W H
           \<and> getUint32 (w_buf s) 80 = Some (word_of_int (spec_triangles W H))
           \<and> list_all Q (w_buf s)"
proof -
  define N where "N = 4 * nat (W - 1) * nat (H - 1) + 4 * nat (W - 1) + 4 * nat (H - 1)"
  have sp: "spec_triangles W H = int N"
    unfolding N_def by (rule spec_triangles_nat[OF assms(1,2)])
  have a: "84 + 50 * N \<le> maxLen"
    using A unfolding sp by linarith
  from stlWriter_docs_result[OF assms(1,2) N_def a R F Z, where px = px] obtain s where
    s: "stlWriter_docs maxLen th px W H = Inr s" "w_off s = 84 + 50 * N"
      "length (w_buf s) = 84 + 50 * N" "emittedCount s = N"
      "getUint32 (w_buf s) 80 = Some (word_of_int (spec_triangles W H))"
      "list_all Q (w_buf s)"
    by blast
  have "buildBinarySTL_docs maxLen th px W H = Inr (w_buf s)"
    by (simp add: buildBinarySTL_docs_def s(1) bindE_def)
  with s show ?thesis unfolding sp by simp
qed

lemma buildBinarySTL_p0_kind:
  assumes "2 \<le> W" "2 \<le> H"
    and A: "84 + 50 * (W - 1) * (H - 1) * 12 \<le> int maxLen"
    and R: "\<And>w. Q (Raw w)" and F: "\<And>r. numOK Q (Num r)"
    and Z: "\<And>x y. 0 \<le> x \<Longrightarrow> x < W \<Longrightarrow> 0 \<le> y \<Longrightarrow> y < H \<Longrightarrow> numOK Q (vzTop th W x y)"
  shows "\<exists>s. stlWriter_p0 maxLen th px W H = Inr s
           \<and> buildBinarySTL_p0 maxLen th px W H = Inr (take (w_off s) (w_buf s))
           \<and> int (w_count s) = spec_triangles W H
           \<and> int (w_off s) = 84 + 50 * spec_triangles W H
           \<and> int (length (take (w_off s) (w_buf s))) = 84 + 50 * spec_triangles W H
           \<and> getUint32 (take (w_off s) (w_buf s)) 80 = Some (word_of_int (spec_triangles W H))
           \<and> list_all Q (take (w_off s) (w_buf s))"
proof -
  define N where "N = 4 * nat (W - 1) * nat (H - 1) + 4 * nat (W - 1) + 4 * nat (H - 1)"
  have d: "1 \<le> W" "1 \<le> H" using assms(1,2) by simp_all
  have sp: "spec_triangles W H = int N"
    unfolding N_def by (rule spec_triangles_nat[OF d])
  have a: "84 + 600 * nat (W - 1) * nat (H - 1) \<le> maxLen"
    using A unfolding p0_buffer_size[OF d] by linarith
  from stlWriter_p0_result[OF assms(1,2) N_def a R F Z, where px = px] obtain s where
    s: "stlWriter_p0 maxLen th px W H = Inr s" "w_off s = 84 + 50 * N"
      "84 + 50 * N \<le> length (w_buf s)" "w_count s = N"
      "getUint32 (w_buf s) 80 = Some (word_of_int (spec_triangles W H))"
      "list_all Q (w_buf s)"
    by blast
  have r: "buildBinarySTL_p0 maxLen th px W H = Inr (take (w_off s) (w_buf s))"
    by (simp add: buildBinarySTL_p0_def s(1) bindE_def)
  have l: "length (take (w_off s) (w_buf s)) = 84 + 50 * N"
    using s(2,3) by simp
  have g: "getUint32 (take (w_off s) (w_buf s)) 80 = getUint32 (w_buf s) 80"
    by (rule getUint32_take) (use s(2,3) l in simp_all)
  have q: "list_all Q (take (w_off s) (w_buf s))"
    using s(6) by (auto simp: list_all_iff dest: in_set_takeD)
  from s r l g q show ?thesis unfolding sp by simp
qed

lemma buildBinarySTL_docs_result:
  assumes "1 \<le> W" "1 \<le> H" "84 + 50 * spec_triangles W H \<le> int maxLen"
  shows "\<exists>s. stlWriter_docs maxLen th px W H = Inr s
           \<and> buildBinarySTL_docs maxLen th px W H = Inr (w_buf s)
           \<and> int (emittedCount s) = spec_triangles W H
           \<and> int (w_off s) = 84 + 50 * spec_triangles W H
           \<and> int (length (w_buf s)) = 84 + 50 * spec_triangles W H
           \<and> getUint32 (w_buf s) 80 = Some (word_of_int (spec_triangles W H))"
  using buildBinarySTL_docs_kind[OF assms, where Q = anyByte and th = th and px = px,
      OF any_bytes(1) any_bytes(2) any_bytes(2)]
  by blast

lemma buildBinarySTL_p0_result:
  assumes "2 \<le> W" "2 \<le> H" "84 + 50 * (W - 1) * (H - 1) * 12 \<le> int maxLen"
  shows "\<exists>s. stlWriter_p0 maxLen th px W H = Inr s
           \<and> buildBinarySTL_p0 maxLen th px W H = Inr (take (w_off s) (w_buf s))
           \<and> int (w_count s) = spec_triangles W H
           \<and> int (w_off s) = 84 + 50 * spec_triangles W H
           \<and> int (length (take (w_off s) (w_buf s))) = 84 + 50 * spec_triangles W H
           \<and> getUint32 (take (w_off s) (w_buf s)) 80 = Some (word_of_int (spec_triangles W H))"
  using buildBinarySTL_p0_kind[OF assms, where Q = anyByte and th = th and px = px,
      OF any_bytes(1) any_bytes(2) any_bytes(2)]
  by blast

lemma buildBinarySTL_docs_numbers:
  assumes "1 \<le> W" "1 \<le> H" "84 + 50 * spec_triangles W H \<le> int maxLen"
    and "int (length th) = W * H"
  shows "\<exists>bytes. buildBinarySTL_docs maxLen th px W H = Inr bytes \<and> list_all numberByte bytes"
proof -
  from buildBinarySTL_docs_kind[OF assms(1-3), where Q = numberByte and th = th and px = px,
      OF number_bytes heights_in_field[OF assms(4)]]
  show ?thesis by blast
qed

lemma buildBinarySTL_p0_numbers:
  assumes "2 \<le> W" "2 \<le> H" "84 + 50 * (W - 1) * (H - 1) * 12 \<le> int maxLen"
    and "int (length th) = W * H"
  shows "\<exists>bytes. buildBinarySTL_p0 maxLen th px W H = Inr bytes \<and> list_all numberByte bytes"
proof -
  from buildBinarySTL_p0_kind[OF assms(1-3), where Q = numberByte and th = th and px = px,
      OF number_bytes heights_in_field[OF assms(4)]]
  show ?thesis by blast
qed

lemma p0_buffer_covers:
  assumes "2 \<le> W" "2 \<le> H"
  shows "84 + 50 * spec_triangles W H \<le> 84 + 50 * (W - 1) * (H - 1) * 12"
proof -
  have d: "1 \<le> W" "1 \<le> H" using assms by simp_all
  have "int (4 * nat (W - 1) * nat (H - 1) + 4 * nat (W - 1) + 4 * nat (H - 1))
        \<le> int (12 * nat (W - 1) * nat (H - 1))"
    using p0_buffer_fits[OF assms] by (rule of_nat_mono)
  then show ?thesis
    unfolding p0_buffer_size[OF d] spec_triangles_nat[OF d] by simp
qed

lemma docs_allocation_fails:
  assumes "int maxLen < 84 + 50 * spec_triangles W H"
  shows "buildBinarySTL_docs maxLen th px W H = Inl RangeError"
proof -
  have "int maxLen < 84 + triCount_docs W H * 50"
    using assms by (simp add: triCount_docs_spec)
  then show ?thesis
    by (simp add: buildBinarySTL_docs_def stlWriter_docs_def Let_def ArrayBuffer_too_long bindE_def)
qed

lemma p0_allocation_fails:
  assumes "int maxLen < 84 + 50 * (W - 1) * (H - 1) * 12"
  shows "buildBinarySTL_p0 maxLen th px W H = Inl RangeError"
  unfolding buildBinarySTL_p0_def stlWriter_p0_def ArrayBuffer_too_long[OF assms] bindE_def
  by simp

lemma docs_zero_dimension:
  assumes "W = 0 \<or> H = 0"
  shows "buildBinarySTL_docs maxLen th px W H = Inl RangeError"
proof -
  have "triCount_docs W H = - 4"
    using assms by (auto simp: triCount_docs_def Let_def)
  then show ?thesis
    by (simp add: buildBinarySTL_docs_def stlWriter_docs_def ArrayBuffer_def bindE_def)
qed

lemma p0_degenerate_RangeError: "buildBinarySTL_p0 maxLen [t0, t1] px 1 2 = Inl RangeError"
  by (simp add: buildBinarySTL_p0_def stlWriter_p0_def ArrayBuffer_def bindE_def setUint32_def
      setBytes_def uint32_le_def cells_p0_def sidesX_p0_def sidesY_p0_def forE_def loopRange_def
      writeTri_p0_def setFloat32_def float32_le_def Let_def upto.simps)

lemma p0_point:
  assumes "84 \<le> maxLen"
  shows "byteLength (buildBinarySTL_p0 maxLen th px 1 1) = Some 84"
    "countField (buildBinarySTL_p0 maxLen th px 1 1) = Some 0"
    "\<exists>bytes. buildBinarySTL_p0 maxLen th px 1 1 = Inr bytes \<and> list_all numberByte bytes"
  using assms
  by (simp_all add: buildBinarySTL_p0_def stlWriter_p0_def ArrayBuffer_def bindE_def setUint32_def
      setBytes_def uint32_le_def cells_p0_def sidesX_p0_def sidesY_p0_def forE_def loopRange_def
      byteLength_def countField_def getUint32_def nth_append numberByte_def list_all_iff)

lemma p0_zero_by_zero:
  assumes "684 \<le> maxLen"
  shows "byteLength (buildBinarySTL_p0 maxLen [] px 0 0) = Some 84"
  using assms
  by (simp add: buildBinarySTL_p0_def stlWriter_p0_def ArrayBuffer_def bindE_def setUint32_def
      setBytes_def uint32_le_def cells_p0_def sidesX_p0_def sidesY_p0_def forE_def loopRange_def
      byteLength_def)

lemma uint_count_field:
  assumes "0 \<le> n" "n < 2 ^ 32"
  shows "uint (word_of_int n :: 32 word) = n"
  using assms by (simp add: uint_word_of_int take_bit_int_eq_self)

lemma byteLength_docs:
  assumes "1 \<le> W" "1 \<le> H" "84 + 50 * spec_triangles W H \<le> int maxLen"
  shows "byteLength (buildBinarySTL_docs maxLen th px W H)
           = Some (nat (84 + 50 * spec_triangles W H))"
    and "countField (buildBinarySTL_docs maxLen th px W H)
           = Some (word_of_int (spec_triangles W H))"
proof -
  from buildBinarySTL_docs_result[OF assms, of th px] obtain s :: writer where
    s: "buildBinarySTL_docs maxLen th px W H = Inr (w_buf s)"
      "int (length (w_buf s)) = 84 + 50 * spec_triangles W H"
      "getUint32 (w_buf s) 80 = Some (word_of_int (spec_triangles W H))"
    by blast
  have "length (w_buf s) = nat (84 + 50 * spec_triangles W H)"
    unfolding s(2)[symmetric] by simp
  then show "byteLength (buildBinarySTL_docs maxLen th px W H)
             = Some (nat (84 + 50 * spec_triangles W H))"
    by (simp add: byteLength_def s(1))
  show "countField (buildBinarySTL_docs maxLen th px W H)
        = Some (word_of_int (spec_triangles W H))"
    by (simp add: countField_def s(1) s(3))
qed

lemma byteLength_p0:
  assumes "2 \<le> W" "2 \<le> H" "84 + 50 * (W - 1) * (H - 1) * 12 \<le> int maxLen"
  shows "byteLength (buildBinarySTL_p0 maxLen th px W H)
           = Some (nat (84 + 50 * spec_triangles W H))"
    and "countField (buildBinarySTL_p0 maxLen th px W H)
           = Some (word_of_int (spec_triangles W H))"
proof -
  from buildBinarySTL_p0_result[OF assms, of th px] obtain s :: writer_p0 where
    s: "buildBinarySTL_p0 maxLen th px W H = Inr (take (w_off s) (w_buf s))"
      "int (length (take (w_off s) (w_buf s))) = 84 + 50 * spec_triangles W H"
      "getUint32 (take (w_off s) (w_buf s)) 80 = Some (word_of_int (spec_triangles W H))"
    by blast
  have "length (take (w_off s) (w_buf s)) = nat (84 + 50 * spec_triangles W H)"
    unfolding s(2)[symmetric] by (simp only: nat_int)
  then show "byteLength (buildBinarySTL_p0 maxLen th px W H)
             = Some (nat (84 + 50 * spec_triangles W H))"
    by (simp add: byteLength_def s(1) del: length_take)
  show "countField (buildBinarySTL_p0 maxLen th px W H)
        = Some (word_of_int (spec_triangles W H))"
    by (simp add: countField_def s(1) s(3) del: length_take)
qed

section \<open>Properties of the serializer\<close>

text \<open>
  Claim C2, for the buffers that can be allocated. For \<open>W \<ge> 2\<close>, \<open>H \<ge> 2\<close>, a field of
  length \<open>W * H\<close> and a triangle count
  \<open>N = 2 * (W - 1) * (H - 1) * 2 + 2 * (2 * (W - 1) + 2 * (H - 1))\<close>
  \<open>= 4 * (W - 1) * (H - 1) + 4 * (W - 1) + 4 * (H - 1)\<close> below \<open>2 ^ 32\<close>: a variant whose
  buffer the engine can allocate (\<open>84 + 50 * N\<close> bytes in \<^verbatim>\<open>src/docs/app.js\<close>,
  \<open>84 + 600 * (W - 1) * (H - 1)\<close> bytes in \<^verbatim>\<open>src/unnamed/part_000\<close>) writes \<open>N\<close> at offset
  80, emits \<open>N\<close> records of 50 bytes and returns \<open>84 + 50 * N\<close> bytes; a variant whose buffer
  cannot be allocated raises a \<^verbatim>\<open>RangeError\<close> and returns nothing.
\<close>

theorem triangle_count_invariant:
  assumes "2 \<le> W" "2 \<le> H" "int (length thickness) = W * H" "spec_triangles W H < 2 ^ 32"
  shows "(84 + 50 * spec_triangles W H \<le> int maxLen \<longrightarrow>
          (\<exists>s. stlWriter_docs maxLen thickness pxMm W H = Inr s
            \<and> buildBinarySTL_docs maxLen thickness pxMm W H = Inr (w_buf s)
            \<and> map_option uint (getUint32 (w_buf s) 80) = Some (spec_triangles W H)
            \<and> int (emittedCount s) = spec_triangles W H
            \<and> int (length (w_buf s)) = 84 + 50 * spec_triangles W H))
       \<and> (84 + 50 * (W - 1) * (H - 1) * 12 \<le> int maxLen \<longrightarrow>
          (\<exists>s. stlWriter_p0 maxLen thickness pxMm W H = Inr s
            \<and> buildBinarySTL_p0 maxLen thickness pxMm W H = Inr (take (w_off s) (w_buf s))
            \<and> map_option uint (getUint32 (take (w_off s) (w_buf s)) 80)
                = Some (spec_triangles W H)
            \<and> int (w_count s) = spec_triangles W H
            \<and> int (length (take (w_off s) (w_buf s))) = 84 + 50 * spec_triangles W H))
       \<and> (int maxLen < 84 + 50 * spec_triangles W H \<longrightarrow>
            buildBinarySTL_docs maxLen thickness pxMm W H = Inl RangeError)
       \<and> (int maxLen < 84 + 50 * (W - 1) * (H - 1) * 12 \<longrightarrow>
            buildBinarySTL_p0 maxLen thickness pxMm W H = Inl RangeError)
       \<and> spec_triangles W H = 4 * (W - 1) * (H - 1) + 4 * (W - 1) + 4 * (H - 1)"
proof -
  have d: "1 \<le> W" "1 \<le> H" using assms(1,2) by simp_all
  have "0 \<le> spec_triangles W H"
    unfolding spec_triangles_nat[OF d] by (rule of_nat_0_le_iff)
  then have u: "uint (word_of_int (spec_triangles W H) :: 32 word) = spec_triangles W H"
    using assms(4) by (rule uint_count_field)
  have a: "\<exists>s. stlWriter_docs maxLen thickness pxMm W H = Inr s
            \<and> buildBinarySTL_docs maxLen thickness pxMm W H = Inr (w_buf s)
            \<and> map_option uint (getUint32 (w_buf s) 80) = Some (spec_triangles W H)
            \<and> int (emittedCount s) = spec_triangles W H
            \<and> int (length (w_buf s)) = 84 + 50 * spec_triangles W H"
    if "84 + 50 * spec_triangles W H \<le> int maxLen"
    using buildBinarySTL_docs_result[OF d that, of thickness pxMm] u by auto
  have b: "\<exists>s. stlWriter_p0 maxLen thickness pxMm W H = Inr s
            \<and> buildBinarySTL_p0 maxLen thickness pxMm W H = Inr (take (w_off s) (w_buf s))
            \<and> map_option uint (getUint32 (take (w_off s) (w_buf s)) 80)
                = Some (spec_triangles W H)
            \<and> int (w_count s) = spec_triangles W H
            \<and> int (length (take (w_off s) (w_buf s))) = 84 + 50 * spec_triangles W H"
    if "84 + 50 * (W - 1) * (H - 1) * 12 \<le> int maxLen"
    using buildBinarySTL_p0_result[OF assms(1,2) that, of thickness pxMm] u
    by (auto simp del: length_take)
  show ?thesis
    using a b spec_triangles_alt[of W H]
      docs_allocation_fails[of maxLen W H thickness pxMm]
      p0_allocation_fails[of maxLen W H thickness pxMm]
    by blast
qed

text \<open>
  Claim C2, for the buffers that can be allocated, on a 2 by 2 field with an allocation
  limit of 4 GiB: 12 triangles, 684 bytes.
\<close>

theorem triangle_count_invariant_witness:
  "(\<exists>s. stlWriter_docs 4294967296 [1, 1, 1, 1] 1 2 2 = Inr s
            \<and> buildBinarySTL_docs 4294967296 [1, 1, 1, 1] 1 2 2 = Inr (w_buf s)
            \<and> map_option uint (getUint32 (w_buf s) 80) = Some 12
            \<and> int (emittedCount s) = 12
            \<and> int (length (w_buf s)) = 684)
       \<and> (\<exists>s. stlWriter_p0 4294967296 [1, 1, 1, 1] 1 2 2 = Inr s
            \<and> buildBinarySTL_p0 4294967296 [1, 1, 1, 1] 1 2 2 = Inr (take (w_off s) (w_buf s))
            \<and> map_option uint (getUint32 (take (w_off s) (w_buf s)) 80) = Some 12
            \<and> int (w_count s) = 12
            \<and> int (length (take (w_off s) (w_buf s))) = 684)"
proof -
  have sp: "spec_triangles 2 2 = 12" by (simp add: spec_triangles_def)
  have h: "(2::int) \<le> 2" "int (length [1, 1, 1, 1 :: real]) = 2 * 2" "spec_triangles 2 2 < 2 ^ 32"
    by (simp_all add: sp)
  show ?thesis
    using triangle_count_invariant[OF h(1) h(1) h(2) h(3), of 4294967296 1] unfolding sp
    by (simp del: length_take)
qed

text \<open>
  Claim C2 as stated fails where the buffer cannot be allocated: for \<open>W = H = 30000\<close> the count
  3599999996 is below \<open>2 ^ 32\<close>, the buffers have 179999999884 and 539964000684 bytes, and
  with an allocation limit of 4 GiB both variants raise a \<^verbatim>\<open>RangeError\<close>, so that
  there is no count field and no stream.
\<close>

theorem triangle_count_allocation_fails:
  "buildBinarySTL_docs 4294967296 (replicate (30000 * 30000) 0) 1 30000 30000 = Inl RangeError
   \<and> buildBinarySTL_p0 4294967296 (replicate (30000 * 30000) 0) 1 30000 30000 = Inl RangeError
   \<and> countField (buildBinarySTL_docs 4294967296 (replicate (30000 * 30000) 0) 1 30000 30000)
       = None
   \<and> countField (buildBinarySTL_p0 4294967296 (replicate (30000 * 30000) 0) 1 30000 30000)
       = None
   \<and> spec_triangles 30000 30000 = 3599999996
   \<and> spec_triangles 30000 30000 < 2 ^ 32
   \<and> int (length (replicate (30000 * 30000) (0::real))) = 30000 * 30000"
proof -
  have sp: "spec_triangles 30000 30000 = 3599999996" by (simp add: spec_triangles_def)
  have a: "buildBinarySTL_docs 4294967296 (replicate (30000 * 30000) 0) 1 30000 30000
           = Inl RangeError"
    by (rule docs_allocation_fails) (simp add: sp)
  have b: "buildBinarySTL_p0 4294967296 (replicate (30000 * 30000) 0) 1 30000 30000
           = Inl RangeError"
    by (rule p0_allocation_fails) simp
  have c: "int (length (replicate (30000 * 30000) (0::real))) = 30000 * 30000" by simp
  show ?thesis
    unfolding a b sp using c by (simp add: countField_def)
qed

text \<open>
  Claim C10, for the buffers that can be allocated. For \<open>W \<ge> 2\<close>, \<open>H \<ge> 2\<close>, any
  \<open>pxMm\<close> and a field of length \<open>W * H\<close>, when the engine can allocate the
  \<open>84 + 600 * (W - 1) * (H - 1)\<close> bytes that \<^verbatim>\<open>src/unnamed/part_000\<close> asks for, the two
  variants return streams of the same length and with the same count field: 84 bytes and
  then \<open>N = 4 * (W - 1) * (H - 1) + 4 * (W - 1) + 4 * (H - 1)\<close> records of 50 bytes, which
  is also the number each of them emits; the count field holds \<open>N\<close> when \<open>N < 2 ^ 32\<close>.
\<close>

theorem variants_agree:
  assumes "2 \<le> W" "2 \<le> H" "int (length thickness) = W * H"
    and "84 + 50 * (W - 1) * (H - 1) * 12 \<le> int maxLen"
  shows "byteLength (buildBinarySTL_docs maxLen thickness pxMm W H)
           = byteLength (buildBinarySTL_p0 maxLen thickness pxMm W H)
       \<and> countField (buildBinarySTL_docs maxLen thickness pxMm W H)
           = countField (buildBinarySTL_p0 maxLen thickness pxMm W H)
       \<and> byteLength (buildBinarySTL_docs maxLen thickness pxMm W H)
           = Some (nat (84 + 50 * (4 * (W - 1) * (H - 1) + 4 * (W - 1) + 4 * (H - 1))))
       \<and> countField (buildBinarySTL_docs maxLen thickness pxMm W H)
           = Some (word_of_int (4 * (W - 1) * (H - 1) + 4 * (W - 1) + 4 * (H - 1)))
       \<and> (4 * (W - 1) * (H - 1) + 4 * (W - 1) + 4 * (H - 1) < 2 ^ 32 \<longrightarrow>
            map_option uint (countField (buildBinarySTL_docs maxLen thickness pxMm W H))
              = Some (4 * (W - 1) * (H - 1) + 4 * (W - 1) + 4 * (H - 1)))
       \<and> (\<exists>s t. stlWriter_docs maxLen thickness pxMm W H = Inr s
                 \<and> stlWriter_p0 maxLen thickness pxMm W H = Inr t
                 \<and> int (emittedCount s) = 4 * (W - 1) * (H - 1) + 4 * (W - 1) + 4 * (H - 1)
                 \<and> int (w_count t) = 4 * (W - 1) * (H - 1) + 4 * (W - 1) + 4 * (H - 1))
       \<and> 84 + 50 * (4 * (W - 1) * (H - 1) + 4 * (W - 1) + 4 * (H - 1))
           \<le> 84 + 50 * (W - 1) * (H - 1) * 12"
proof -
  have d: "1 \<le> W" "1 \<le> H" using assms(1,2) by simp_all
  have A: "84 + 50 * spec_triangles W H \<le> int maxLen"
    using p0_buffer_covers[OF assms(1,2)] assms(4) by linarith
  have n: "0 \<le> spec_triangles W H"
    unfolding spec_triangles_nat[OF d] by (rule of_nat_0_le_iff)
  have u: "uint (word_of_int (spec_triangles W H) :: 32 word) = spec_triangles W H"
    if "spec_triangles W H < 2 ^ 32"
    using n that by (rule uint_count_field)
  from buildBinarySTL_docs_result[OF d A, of thickness pxMm] obtain s :: writer where
    s: "stlWriter_docs maxLen thickness pxMm W H = Inr s"
      "int (emittedCount s) = spec_triangles W H"
    by blast
  from buildBinarySTL_p0_result[OF assms(1,2,4), of thickness pxMm] obtain t :: writer_p0 where
    t: "stlWriter_p0 maxLen thickness pxMm W H = Inr t" "int (w_count t) = spec_triangles W H"
    by blast
  have m: "spec_triangles W H < 2 ^ 32 \<longrightarrow>
           map_option uint (Some (word_of_int (spec_triangles W H) :: 32 word))
             = Some (spec_triangles W H)"
    using u by simp
  show ?thesis
    unfolding spec_triangles_alt[symmetric]
    unfolding byteLength_docs[OF d A] byteLength_p0[OF assms(1,2,4)]
    using s t m p0_buffer_covers[OF assms(1,2)] by blast
qed

text \<open>
  Claim C10, for the buffers that can be allocated, on a 3 by 2 field with an
  allocation limit of 4 GiB: 20 triangles, 1084 bytes.
\<close>

theorem variants_agree_witness:
  "byteLength (buildBinarySTL_docs 4294967296 [1, 1, 1, 1, 1, 1] 1 3 2)
     = byteLength (buildBinarySTL_p0 4294967296 [1, 1, 1, 1, 1, 1] 1 3 2)
   \<and> countField (buildBinarySTL_docs 4294967296 [1, 1, 1, 1, 1, 1] 1 3 2)
     = countField (buildBinarySTL_p0 4294967296 [1, 1, 1, 1, 1, 1] 1 3 2)
   \<and> byteLength (buildBinarySTL_docs 4294967296 [1, 1, 1, 1, 1, 1] 1 3 2) = Some 1084
   \<and> map_option uint (countField (buildBinarySTL_docs 4294967296 [1, 1, 1, 1, 1, 1] 1 3 2))
     = Some 20"
proof -
  have h: "(2::int) \<le> 3" "(2::int) \<le> 2" "int (length [1, 1, 1, 1, 1, 1 :: real]) = 3 * 2"
    "84 + 50 * ((3::int) - 1) * (2 - 1) * 12 \<le> int 4294967296"
    by simp_all
  note v = variants_agree[OF h, of 1]
  have 1: "byteLength (buildBinarySTL_docs 4294967296 [1, 1, 1, 1, 1, 1] 1 3 2)
           = byteLength (buildBinarySTL_p0 4294967296 [1, 1, 1, 1, 1, 1] 1 3 2)"
    using v by blast
  have 2: "countField (buildBinarySTL_docs 4294967296 [1, 1, 1, 1, 1, 1] 1 3 2)
           = countField (buildBinarySTL_p0 4294967296 [1, 1, 1, 1, 1, 1] 1 3 2)"
    using v by blast
  have 3: "byteLength (buildBinarySTL_docs 4294967296 [1, 1, 1, 1, 1, 1] 1 3 2) = Some 1084"
    using conjunct1[OF conjunct2[OF conjunct2[OF v]]] by simp
  have 4: "map_option uint (countField (buildBinarySTL_docs 4294967296 [1, 1, 1, 1, 1, 1] 1 3 2))
           = Some 20"
    using conjunct1[OF conjunct2[OF conjunct2[OF conjunct2[OF conjunct2[OF v]]]]] by simp
  show ?thesis
    using 1 2 3 4 by blast
qed

text \<open>
  Claim C10 as stated fails between the two buffer sizes: for \<open>W = H = 3000\<close> and an
  allocation limit of 4 GiB, \<^verbatim>\<open>src/docs/app.js\<close> returns 1799999884 bytes, and
  \<^verbatim>\<open>src/unnamed/part_000\<close>, which asks for 5396400684 bytes, raises a \<^verbatim>\<open>RangeError\<close>.
\<close>

theorem variants_differ_on_allocation:
  "byteLength (buildBinarySTL_docs 4294967296 (replicate (3000 * 3000) 0) 1 3000 3000)
     = Some 1799999884
   \<and> buildBinarySTL_p0 4294967296 (replicate (3000 * 3000) 0) 1 3000 3000 = Inl RangeError
   \<and> byteLength (buildBinarySTL_p0 4294967296 (replicate (3000 * 3000) 0) 1 3000 3000) = None
   \<and> int (length (replicate (3000 * 3000) (0::real))) = 3000 * 3000"
proof -
  have sp: "spec_triangles 3000 3000 = 35999996" by (simp add: spec_triangles_def)
  have h: "(1::int) \<le> 3000" "84 + 50 * spec_triangles 3000 3000 \<le> int 4294967296"
    by (simp_all add: sp)
  have a: "byteLength (buildBinarySTL_docs 4294967296 (replicate (3000 * 3000) 0) 1 3000 3000)
           = Some 1799999884"
    unfolding byteLength_docs(1)[OF h(1) h(1) h(2)] sp by simp
  have b: "buildBinarySTL_p0 4294967296 (replicate (3000 * 3000) 0) 1 3000 3000 = Inl RangeError"
    by (rule p0_allocation_fails) simp
  have c: "int (length (replicate (3000 * 3000) (0::real))) = 3000 * 3000" by simp
  show ?thesis
    unfolding a b using c by (simp add: byteLength_def)
qed

text \<open>
  Claim C3, amended. For \<open>W = 1\<close> or \<open>H = 1\<close>, the other dimension \<open>n \<ge> 1\<close>, a field of
  \<open>W * H = n\<close> numbers and a finite \<open>pxMm\<close>, when the engine can allocate
  \<open>84 + 50 * 4 * (n - 1)\<close> bytes and \<open>4 * (n - 1) < 2 ^ 32\<close>: \<^verbatim>\<open>buildBinarySTL\<close> of
  \<^verbatim>\<open>src/docs/app.js\<close> returns without an error a stream of \<open>84 + 50 * 4 * (n - 1)\<close> bytes
  whose count field holds \<open>4 * (n - 1)\<close>, the number of records it emits, and in which no
  coordinate is \<^verbatim>\<open>NaN\<close>; the stream is the 84-byte header alone exactly when
  \<open>W = H = 1\<close>, and there \<^verbatim>\<open>src/unnamed/part_000\<close> returns 84 bytes with count 0 and
  without \<^verbatim>\<open>NaN\<close> too.
\<close>

theorem degenerate_field:
  assumes "W = 1 \<or> H = 1" "1 \<le> W" "1 \<le> H" "int (length thickness) = W * H"
    and "84 + 50 * (4 * (W * H - 1)) \<le> int maxLen" "4 * (W * H - 1) < 2 ^ 32"
  shows "byteLength (buildBinarySTL_docs maxLen thickness pxMm W H)
           = Some (nat (84 + 50 * (4 * (W * H - 1))))
       \<and> map_option uint (countField (buildBinarySTL_docs maxLen thickness pxMm W H))
           = Some (4 * (W * H - 1))
       \<and> (\<exists>s. stlWriter_docs maxLen thickness pxMm W H = Inr s
              \<and> int (emittedCount s) = 4 * (W * H - 1))
       \<and> (\<exists>bytes. buildBinarySTL_docs maxLen thickness pxMm W H = Inr bytes
              \<and> list_all numberByte bytes)
       \<and> (byteLength (buildBinarySTL_docs maxLen thickness pxMm W H) = Some 84
            \<longleftrightarrow> W = 1 \<and> H = 1)
       \<and> byteLength (buildBinarySTL_p0 maxLen thickness pxMm 1 1) = Some 84
       \<and> countField (buildBinarySTL_p0 maxLen thickness pxMm 1 1) = Some 0
       \<and> (\<exists>bytes. buildBinarySTL_p0 maxLen thickness pxMm 1 1 = Inr bytes
              \<and> list_all numberByte bytes)"
proof -
  have sp: "spec_triangles W H = 4 * (W * H - 1)"
    using assms(1) by (auto simp: spec_triangles_def)
  have A: "84 + 50 * spec_triangles W H \<le> int maxLen"
    unfolding sp by (rule assms(5))
  have n: "0 \<le> 4 * (W * H - 1)"
    using assms(1-3) by auto
  then have u: "uint (word_of_int (4 * (W * H - 1)) :: 32 word) = 4 * (W * H - 1)"
    using assms(6) by (rule uint_count_field)
  have m: "84 \<le> maxLen"
    using assms(5) n by linarith
  from buildBinarySTL_docs_result[OF assms(2,3) A, of thickness pxMm] obtain s :: writer where
    s: "stlWriter_docs maxLen thickness pxMm W H = Inr s"
      "int (emittedCount s) = spec_triangles W H"
    by blast
  have e: "(nat (84 + 50 * (4 * (W * H - 1))) = 84) = (W = 1 \<and> H = 1)"
    using assms(1-3) by auto
  have c: "map_option uint (countField (buildBinarySTL_docs maxLen thickness pxMm W H))
           = Some (4 * (W * H - 1))"
    unfolding byteLength_docs(2)[OF assms(2,3) A] sp by (simp only: option.map u)
  show ?thesis
    using byteLength_docs(1)[OF assms(2,3) A, of thickness pxMm] s c e
      buildBinarySTL_docs_numbers[OF assms(2,3) A assms(4), of pxMm]
      p0_point[OF m, of thickness pxMm]
    unfolding sp by simp
qed

text \<open>
  Claim C3, amended, on a field of 1 by 3 and on a field of 1 by 1, with an allocation
  limit of 4 GiB.
\<close>

theorem degenerate_field_witness:
  "byteLength (buildBinarySTL_docs 4294967296 [1, 1, 1] 1 1 3) = Some 484
   \<and> map_option uint (countField (buildBinarySTL_docs 4294967296 [1, 1, 1] 1 1 3)) = Some 8
   \<and> (\<exists>bytes. buildBinarySTL_docs 4294967296 [1, 1, 1] 1 1 3 = Inr bytes
          \<and> list_all numberByte bytes)
   \<and> byteLength (buildBinarySTL_docs 4294967296 [1] 1 1 1) = Some 84
   \<and> byteLength (buildBinarySTL_p0 4294967296 [1] 1 1 1) = Some 84"
proof -
  have h: "(1::int) = 1 \<or> (3::int) = 1" "(1::int) \<le> 1" "(1::int) \<le> 3"
    "int (length [1, 1, 1 :: real]) = 1 * 3"
    "84 + 50 * (4 * ((1::int) * 3 - 1)) \<le> int 4294967296" "4 * ((1::int) * 3 - 1) < 2 ^ 32"
    by simp_all
  have k: "(1::int) = 1 \<or> (1::int) = 1" "int (length [1 :: real]) = 1 * 1"
    "84 + 50 * (4 * ((1::int) * 1 - 1)) \<le> int 4294967296" "4 * ((1::int) * 1 - 1) < 2 ^ 32"
    by simp_all
  show ?thesis
    using degenerate_field[OF h, of 1] degenerate_field[OF k(1) h(2) h(2) k(2) k(3) k(4), of 1]
    by simp
qed

text \<open>
  Claim C3 as stated fails on a field of 1 by 2: \<^verbatim>\<open>src/docs/app.js\<close> returns 284 bytes
  with count 4, and \<^verbatim>\<open>src/unnamed/part_000\<close> raises a \<^verbatim>\<open>RangeError\<close>, its buffer of 84
  bytes being too short for the first wall triangle.
\<close>

theorem degenerate_field_not_empty:
  "byteLength (buildBinarySTL_docs 4294967296 [1, 1] 1 1 2) = Some 284
   \<and> map_option uint (countField (buildBinarySTL_docs 4294967296 [1, 1] 1 1 2)) = Some 4
   \<and> buildBinarySTL_p0 4294967296 [1, 1] 1 1 2 = Inl RangeError"
proof -
  have sp: "spec_triangles 1 2 = 4" by (simp add: spec_triangles_def)
  have h: "(1::int) \<le> 1" "(1::int) \<le> 2" "84 + 50 * spec_triangles 1 2 \<le> int 4294967296"
    by (simp_all add: sp)
  show ?thesis
    using byteLength_docs[OF h, of "[1, 1]" 1] p0_degenerate_RangeError[of 4294967296 1 1 1]
    unfolding sp by simp
qed

text \<open>
  Claim C9, amended. The serializer checks neither its dimensions nor the length of the
  field. For \<open>W \<ge> 2\<close> and \<open>H \<ge> 2\<close> and a field of any length, a variant whose buffer the
  engine can allocate returns a stream of \<open>84 + 50 * N\<close> bytes,
  \<open>N = 4 * (W - 1) * (H - 1) + 4 * (W - 1) + 4 * (H - 1)\<close>; in \<^verbatim>\<open>src/docs/app.js\<close> a
  dimension of zero makes the allocation of the buffer raise a \<^verbatim>\<open>RangeError\<close>, so that no
  byte is returned.
\<close>

theorem no_dimension_validation:
  "(2 \<le> W \<and> 2 \<le> H \<and> 84 + 50 * spec_triangles W H \<le> int maxLen \<longrightarrow>
      byteLength (buildBinarySTL_docs maxLen thickness pxMm W H)
        = Some (nat (84 + 50 * spec_triangles W H)))
   \<and> (2 \<le> W \<and> 2 \<le> H \<and> 84 + 50 * (W - 1) * (H - 1) * 12 \<le> int maxLen \<longrightarrow>
      byteLength (buildBinarySTL_p0 maxLen thickness pxMm W H)
        = Some (nat (84 + 50 * spec_triangles W H)))
   \<and> (W = 0 \<or> H = 0 \<longrightarrow> buildBinarySTL_docs maxLen thickness pxMm W H = Inl RangeError)"
proof -
  have a: "byteLength (buildBinarySTL_docs maxLen thickness pxMm W H)
             = Some (nat (84 + 50 * spec_triangles W H))"
    if "2 \<le> W \<and> 2 \<le> H \<and> 84 + 50 * spec_triangles W H \<le> int maxLen"
  proof -
    have "1 \<le> W" "1 \<le> H" "84 + 50 * spec_triangles W H \<le> int maxLen"
      using that by simp_all
    then show ?thesis by (rule byteLength_docs(1))
  qed
  have b: "byteLength (buildBinarySTL_p0 maxLen thickness pxMm W H)
             = Some (nat (84 + 50 * spec_triangles W H))"
    if "2 \<le> W \<and> 2 \<le> H \<and> 84 + 50 * (W - 1) * (H - 1) * 12 \<le> int maxLen"
  proof -
    have "2 \<le> W" "2 \<le> H" "84 + 50 * (W - 1) * (H - 1) * 12 \<le> int maxLen"
      using that by simp_all
    then show ?thesis by (rule byteLength_p0(1))
  qed
  show ?thesis using a b docs_zero_dimension[of W H maxLen thickness pxMm] by blast
qed

text \<open>
  Claim C9, amended, on an empty field with \<open>W = H = 2\<close> and on \<open>W = 0\<close>, with an
  allocation limit of 4 GiB.
\<close>

theorem no_dimension_validation_witness:
  "byteLength (buildBinarySTL_docs 4294967296 [] 1 2 2) = Some 684
   \<and> byteLength (buildBinarySTL_p0 4294967296 [] 1 2 2) = Some 684
   \<and> buildBinarySTL_docs 4294967296 [1] 1 0 1 = Inl RangeError"
proof -
  have sp: "spec_triangles 2 2 = 12" by (simp add: spec_triangles_def)
  show ?thesis
    using no_dimension_validation[of 2 2 4294967296 "[]" 1]
      no_dimension_validation[of 0 1 4294967296 "[1]" 1]
    unfolding sp by simp
qed

text \<open>
  Claim C9 as stated fails: an empty field with \<open>W = H = 2\<close> is serialised to 684 bytes
  by both variants, and \<^verbatim>\<open>src/unnamed/part_000\<close> serialises \<open>W = H = 0\<close> to the 84-byte
  header.
\<close>

theorem serializer_accepts_bad_dimensions:
  "byteLength (buildBinarySTL_docs 4294967296 [] 1 2 2) = Some 684
   \<and> byteLength (buildBinarySTL_p0 4294967296 [] 1 2 2) = Some 684
   \<and> int (length ([] :: real list)) \<noteq> 2 * 2
   \<and> byteLength (buildBinarySTL_p0 4294967296 [] 1 0 0) = Some 84"
proof -
  have sp: "spec_triangles 2 2 = 12" by (simp add: spec_triangles_def)
  have h: "(1::int) \<le> 2" "(2::int) \<le> 2" "84 + 50 * spec_triangles 2 2 \<le> int 4294967296"
    "84 + 50 * ((2::int) - 1) * (2 - 1) * 12 \<le> int 4294967296"
    by (simp_all add: sp)
  have z: "(684::nat) \<le> 4294967296" by simp
  show ?thesis
    using byteLength_docs(1)[OF h(1) h(1) h(3), of "[]" 1]
      byteLength_p0(1)[OF h(2) h(2) h(4), of "[]" 1] p0_zero_by_zero[OF z, of 1]
    unfolding sp by simp
qed

end
